theory Spec2Isabelle
  imports Complex_Main
begin

section \<open>Go's \<open>float64\<close> as correctly rounded rationals\<close>

text \<open>
  The analytics of \<open>main.go\<close> compute on \<open>float64\<close>. A finite double is a rational
  number, and every IEEE-754 operation of Go (\<open>+\<close>, \<open>-\<close>, \<open>*\<close>, \<open>/\<close>, the conversion of
  an \<open>int\<close> and of a decimal constant) returns the double nearest to the exact result,
  ties to the even significand. The model therefore takes \<open>f64 = rat\<close> and rounds the
  exact result of every operation with \<open>fl\<close>: 53 significant bits, the subnormal grid
  \<open>2^-1074\<close> below \<open>2^-1022\<close>. Infinities, NaN and the sign of zero are not
  represented: the model is that of the code as long as no intermediate result reaches
  \<open>2^1024\<close> in magnitude.
\<close>

type_synonym f64 = rat

definition rne :: "rat \<Rightarrow> int" where
  "rne x = (let f = \<lfloor>x\<rfloor>; d = x - of_int f in
     if d < 1/2 then f else if 1/2 < d then f + 1 else if even f then f else f + 1)"

definition pow2 :: "int \<Rightarrow> rat" where
  "pow2 e = (if 0 \<le> e then 2 ^ nat e else 1 / 2 ^ nat (- e))"

function expo_up :: "rat \<Rightarrow> int \<Rightarrow> int" where
  "expo_up x e = (if x < 2 then e else expo_up (x / 2) (e + 1))"
  by pat_completeness auto
termination
proof (relation "measure (\<lambda>(x, e). nat \<lceil>x\<rceil>)")
  show "wf (measure (\<lambda>(x::rat, e::int). nat \<lceil>x\<rceil>))" by simp
next
  fix x :: rat and e :: int
  assume "\<not> x < 2"
  then have x: "2 \<le> x" by simp
  have "x / 2 \<le> x - 1" using x by simp
  also have "\<dots> \<le> of_int (\<lceil>x\<rceil> - 1)" by (simp add: le_of_int_ceiling)
  finally have "\<lceil>x / 2\<rceil> \<le> \<lceil>x\<rceil> - 1" by (simp only: ceiling_le_iff)
  moreover have "0 < \<lceil>x\<rceil>" using x by (simp add: less_ceiling_iff)
  ultimately show "((x / 2, e + 1), (x, e)) \<in> measure (\<lambda>(x, e). nat \<lceil>x\<rceil>)"
    by simp
qed

function expo_down :: "rat \<Rightarrow> int \<Rightarrow> int" where
  "expo_down x e = (if x \<le> 0 \<or> 1 \<le> x then e else expo_down (x * 2) (e - 1))"
  by pat_completeness auto
termination
proof (relation "measure (\<lambda>(x, e). nat \<lceil>1 / x\<rceil>)")
  show "wf (measure (\<lambda>(x::rat, e::int). nat \<lceil>1 / x\<rceil>))" by simp
next
  fix x :: rat and e :: int
  assume "\<not> (x \<le> 0 \<or> 1 \<le> x)"
  then have x: "0 < x" "x < 1" by simp_all
  have one: "1 < 1 / x" using x by simp
  then have c2: "2 \<le> \<lceil>1 / x\<rceil>" by (simp add: le_ceiling_iff)
  have "1 / (x * 2) = (1 / x) / 2" by simp
  also have "\<dots> \<le> of_int \<lceil>1 / x\<rceil> / 2"
    by (simp add: le_of_int_ceiling divide_right_mono del: one_divide_eq_0_iff)
  also have "\<dots> \<le> of_int (\<lceil>1 / x\<rceil> - 1)" using c2 by simp
  finally have "\<lceil>1 / (x * 2)\<rceil> \<le> \<lceil>1 / x\<rceil> - 1" by (simp only: ceiling_le_iff)
  with c2 x show "((x * 2, e - 1), (x, e)) \<in> measure (\<lambda>(x, e). nat \<lceil>1 / x\<rceil>)"
    by simp
qed

text \<open>\<open>expo x\<close> is the binary exponent of a positive \<open>x\<close>: \<open>2^e \<le> x < 2^(e+1)\<close>.\<close>

definition expo :: "rat \<Rightarrow> int" where
  "expo x = (if 1 \<le> x then expo_up x 0 else expo_down x 0)"

definition fl_pos :: "rat \<Rightarrow> f64" where
  "fl_pos x = (let u = pow2 (max (expo x) (- 1022) - 52) in of_int (rne (x / u)) * u)"

definition fl :: "rat \<Rightarrow> f64" where
  "fl x = (if x = 0 then 0 else if x < 0 then - fl_pos (- x) else fl_pos x)"

definition fadd :: "f64 \<Rightarrow> f64 \<Rightarrow> f64" where "fadd x y = fl (x + y)"
definition fsub :: "f64 \<Rightarrow> f64 \<Rightarrow> f64" where "fsub x y = fl (x - y)"
definition fmul :: "f64 \<Rightarrow> f64 \<Rightarrow> f64" where "fmul x y = fl (x * y)"
definition fdiv :: "f64 \<Rightarrow> f64 \<Rightarrow> f64" where "fdiv x y = fl (x / y)"

text \<open>\<open>float64(n)\<close> for a Go \<open>int\<close>: exact below \<open>2^53\<close>, rounded above.\<close>

definition float64 :: "int \<Rightarrow> f64" where
  "float64 n = fl (of_int n)"

section \<open>Subscription detector: the numeric tests of \<open>main.go\<close>\<close>

text \<open>
  Go's \<open>int\<close> is modelled by \<open>int\<close>: the intervals are day counts of differences of
  \<open>time.Duration\<close> values (at most 106751 days each), so the sums below stay far from
  \<open>2^63\<close>.
\<close>

text \<open>\<open>for _, interval := range intervals { sum += interval }\<close>\<close>

fun sum_ints :: "int list \<Rightarrow> int \<Rightarrow> int" where
  "sum_ints [] s = s"
| "sum_ints (i # is) s = sum_ints is (s + i)"

text \<open>The second loop of \<open>isRegularPattern\<close>, counting \<open>withinTolerance\<close>.\<close>

fun count_within :: "f64 \<Rightarrow> f64 \<Rightarrow> int list \<Rightarrow> int \<Rightarrow> int" where
  "count_within avg tol [] w = w"
| "count_within avg tol (i # is) w =
     count_within avg tol is (if \<bar>fsub (float64 i) avg\<bar> \<le> tol then w + 1 else w)"

definition isRegularPattern :: "int list \<Rightarrow> bool" where
  "isRegularPattern intervals =
     (if length intervals = 0 then False
      else let sum = sum_ints intervals 0;
               avg = fdiv (float64 sum) (float64 (int (length intervals)));
               tolerance = fmul avg (fl (2 / 10));
               withinTolerance = count_within avg tolerance intervals 0
           in fl (7 / 10) \<le> fdiv (float64 withinTolerance) (float64 (int (length intervals))))"

definition detectFrequency :: "int list \<Rightarrow> string" where
  "detectFrequency intervals =
     (if length intervals = 0 then ''unknown''
      else let sum = sum_ints intervals 0;
               avgDays = fdiv (float64 sum) (float64 (int (length intervals)))
           in if 25 \<le> avgDays \<and> avgDays \<le> 35 then ''monthly''
              else if 80 \<le> avgDays \<and> avgDays \<le> 100 then ''quarterly''
              else if 170 \<le> avgDays \<and> avgDays \<le> 190 then ''semi-annual''
              else if 350 \<le> avgDays \<and> avgDays \<le> 380 then ''annual''
              else if 7 \<le> avgDays \<and> avgDays \<le> 14 then ''biweekly''
              else if 1 \<le> avgDays \<and> avgDays \<le> 7 then ''weekly''
              else ''irregular'')"

definition calculateConfidence :: "int \<Rightarrow> int list \<Rightarrow> string" where
  "calculateConfidence occurrences intervals =
     (if 4 \<le> occurrences \<and> isRegularPattern intervals then ''high''
      else if 3 \<le> occurrences then ''medium''
      else ''low'')"

subsection \<open>The specification's reading of the frequency buckets\<close>

text \<open>The mean interval, as the float64 quotient the code forms.\<close>

definition mean_interval :: "int list \<Rightarrow> f64" where
  "mean_interval xs = fdiv (float64 (sum_list xs)) (float64 (int (length xs)))"

text \<open>The day ranges of the specification, listed in the order in which they are tried.\<close>

definition frequency_ranges :: "(string \<times> rat \<times> rat) list" where
  "frequency_ranges =
     [(''monthly'', 25, 35), (''quarterly'', 80, 100), (''semi-annual'', 170, 190),
      (''annual'', 350, 380), (''biweekly'', 7, 14), (''weekly'', 1, 7)]"

fun first_range :: "(string \<times> rat \<times> rat) list \<Rightarrow> rat \<Rightarrow> string" where
  "first_range [] avg = ''irregular''"
| "first_range ((name, lo, hi) # rs) avg =
     (if lo \<le> avg \<and> avg \<le> hi then name else first_range rs avg)"

section \<open>Transaction categorisation\<close>

text \<open>
  Strings are byte lists (UTF-8). \<open>strings.ToLower\<close> of Go and \<open>toLowerCase\<close> of
  JavaScript follow the Unicode case tables of their libraries; they are not part of the
  repository, and every function below that lowers a string takes the lowering function
  as its first argument.

  On text that is all ASCII both library functions lower the letters \<open>A\<close> to \<open>Z\<close> and
  keep every other character. \<open>ascii_lower\<close> is that function; the examples, whose
  strings are ASCII, are run with it.
\<close>

definition ascii_lower_char :: "char \<Rightarrow> char" where
  "ascii_lower_char c =
     (case map_of (zip ''ABCDEFGHIJKLMNOPQRSTUVWXYZ'' ''abcdefghijklmnopqrstuvwxyz'') c of
        None \<Rightarrow> c
      | Some l \<Rightarrow> l)"

definition ascii_lower :: "string \<Rightarrow> string" where
  "ascii_lower s = map ascii_lower_char s"

fun hasPrefix :: "string \<Rightarrow> string \<Rightarrow> bool" where
  "hasPrefix s [] = True"
| "hasPrefix [] (p # ps) = False"
| "hasPrefix (c # cs) (p # ps) = (c = p \<and> hasPrefix cs ps)"

text \<open>\<open>strings.Contains(s, substr)\<close>\<close>

fun contains :: "string \<Rightarrow> string \<Rightarrow> bool" where
  "contains [] sub = (sub = [])"
| "contains (c # cs) sub = (hasPrefix (c # cs) sub \<or> contains cs sub)"

subsection \<open>\<open>categorizeTransaction\<close> of \<open>main.go\<close>\<close>

definition categorizeTransaction :: "(string \<Rightarrow> string) \<Rightarrow> string \<Rightarrow> string" where
  "categorizeTransaction toLower description =
     (let text = toLower description in
      if contains text ''starbucks'' \<or> contains text ''coffee'' \<or>
         contains text ''chipotle'' \<or> contains text ''pizza'' \<or>
         contains text ''food'' \<or> contains text ''doordash'' \<or>
         contains text ''restaurant'' \<or> contains text ''cafe''
      then ''Food & Dining''
      else if contains text ''uber'' \<or> contains text ''lyft'' \<or>
         contains text ''gas'' \<or> contains text ''metro'' \<or>
         contains text ''parking''
      then ''Transportation''
      else if contains text ''amazon'' \<or> contains text ''target'' \<or>
         contains text ''nike'' \<or> contains text ''store''
      then ''Shopping''
      else if contains text ''netflix'' \<or> contains text ''spotify'' \<or>
         contains text ''movie'' \<or> contains text ''steam'' \<or>
         contains text ''hulu'' \<or> contains text ''disney''
      then ''Entertainment''
      else if contains text ''bill'' \<or> contains text ''electric'' \<or>
         contains text ''internet'' \<or> contains text ''phone''
      then ''Bills & Utilities''
      else ''Other'')"

subsection \<open>\<open>categorizeTransaction\<close> of the TypeScript client (\<open>useBankingData\<close>)\<close>

datatype tx_type = Send | Receive | Deposit | Withdrawal

datatype tx_status = Pending | Completed | Failed

record ts_transaction =
  ts_id :: string
  ts_amount :: f64
  ts_currency :: string
  ts_type :: tx_type
  ts_status :: tx_status
  ts_description :: string
  ts_createdAt :: string
  ts_counterparty :: "string option"

text \<open>\<open>text.match(/k1|k2|.../)\<close>: some alternative occurs in the text.\<close>

definition match_any :: "string \<Rightarrow> string list \<Rightarrow> bool" where
  "match_any text alternatives = list_ex (contains text) alternatives"

text \<open>The template string: description, a blank, and \<open>tx.counterparty || ''\<close>.\<close>

definition ts_text :: "(string \<Rightarrow> string) \<Rightarrow> ts_transaction \<Rightarrow> string" where
  "ts_text toLowerCase tx =
     toLowerCase (ts_description tx @ '' '' @
       (case ts_counterparty tx of None \<Rightarrow> [] | Some c \<Rightarrow> c))"

definition ts_categorizeTransaction ::
    "(string \<Rightarrow> string) \<Rightarrow> ts_transaction \<Rightarrow> string" where
  "ts_categorizeTransaction toLowerCase tx =
     (let text = ts_text toLowerCase tx in
      if match_any text [''food'', ''restaurant'', ''dining'', ''cafe'', ''coffee'', ''lunch'',
           ''dinner'', ''breakfast'', ''pizza'', ''burger'', ''sushi'', ''delivery'',
           ''uber eats'', ''doordash'', ''grubhub'']
      then ''Food & Dining''
      else if match_any text [''uber'', ''lyft'', ''taxi'', ''transport'', ''gas'', ''fuel'',
           ''parking'', ''transit'', ''metro'', ''bus'', ''train'', ''ride'']
      then ''Transportation''
      else if match_any text [''amazon'', ''shopping'', ''store'', ''retail'', ''mall'',
           ''purchase'', ''buy'', ''walmart'', ''target'', ''ebay'']
      then ''Shopping''
      else if match_any text [''entertainment'', ''movie'', ''cinema'', ''netflix'', ''spotify'',
           ''hulu'', ''disney'', ''hbo'', ''music'', ''concert'', ''game'', ''theater'',
           ''steam'', ''playstation'']
      then ''Entertainment''
      else if match_any text [''bill'', ''utility'', ''electric'', ''water'', ''internet'',
           ''phone'', ''subscription'', ''insurance'', ''rent'', ''mortgage'']
      then ''Bills & Utilities''
      else if match_any text [''health'', ''medical'', ''doctor'', ''pharmacy'', ''hospital'',
           ''dental'', ''clinic'']
      then ''Healthcare''
      else if match_any text [''transfer'', ''saving'', ''deposit'', ''withdraw'']
      then ''Transfers''
      else ''Other'')"

subsection \<open>The specification's reading: an ordered keyword table, first match wins\<close>

definition spec_categories :: "string list" where
  "spec_categories = [''Food & Dining'', ''Transportation'', ''Shopping'', ''Entertainment'',
     ''Bills & Utilities'', ''Other'']"

fun first_keyword_match :: "(string \<times> string list) list \<Rightarrow> string \<Rightarrow> string" where
  "first_keyword_match [] text = ''Other''"
| "first_keyword_match ((category, keywords) # rest) text =
     (if list_ex (contains text) keywords then category else first_keyword_match rest text)"

definition go_keywords :: "(string \<times> string list) list" where
  "go_keywords =
     [(''Food & Dining'', [''starbucks'', ''coffee'', ''chipotle'', ''pizza'', ''food'',
         ''doordash'', ''restaurant'', ''cafe'']),
      (''Transportation'', [''uber'', ''lyft'', ''gas'', ''metro'', ''parking'']),
      (''Shopping'', [''amazon'', ''target'', ''nike'', ''store'']),
      (''Entertainment'', [''netflix'', ''spotify'', ''movie'', ''steam'', ''hulu'',
         ''disney'']),
      (''Bills & Utilities'', [''bill'', ''electric'', ''internet'', ''phone''])]"

definition ts_keywords :: "(string \<times> string list) list" where
  "ts_keywords =
     [(''Food & Dining'', [''food'', ''restaurant'', ''dining'', ''cafe'', ''coffee'', ''lunch'',
         ''dinner'', ''breakfast'', ''pizza'', ''burger'', ''sushi'', ''delivery'',
         ''uber eats'', ''doordash'', ''grubhub'']),
      (''Transportation'', [''uber'', ''lyft'', ''taxi'', ''transport'', ''gas'', ''fuel'',
         ''parking'', ''transit'', ''metro'', ''bus'', ''train'', ''ride'']),
      (''Shopping'', [''amazon'', ''shopping'', ''store'', ''retail'', ''mall'', ''purchase'',
         ''buy'', ''walmart'', ''target'', ''ebay'']),
      (''Entertainment'', [''entertainment'', ''movie'', ''cinema'', ''netflix'', ''spotify'',
         ''hulu'', ''disney'', ''hbo'', ''music'', ''concert'', ''game'', ''theater'',
         ''steam'', ''playstation'']),
      (''Bills & Utilities'', [''bill'', ''utility'', ''electric'', ''water'', ''internet'',
         ''phone'', ''subscription'', ''insurance'', ''rent'', ''mortgage'']),
      (''Healthcare'', [''health'', ''medical'', ''doctor'', ''pharmacy'', ''hospital'',
         ''dental'', ''clinic'']),
      (''Transfers'', [''transfer'', ''saving'', ''deposit'', ''withdraw''])]"

text \<open>A completed card payment at a pharmacy, as the client receives it.\<close>

definition pharmacy_tx :: ts_transaction where
  "pharmacy_tx = \<lparr>ts_id = ''tx1'', ts_amount = 12, ts_currency = ''USD'', ts_type = Send,
     ts_status = Completed, ts_description = ''CVS Pharmacy'',
     ts_createdAt = ''2024-01-01T00:00:00Z'', ts_counterparty = None\<rparr>"

section \<open>Spending summary\<close>

subsection \<open>Transactions of \<open>main.go\<close>: decoded JSON objects\<close>

text \<open>
  A transaction is a \<open>map[string]interface{}\<close> decoded from JSON. A field is read with
  a type assertion whose failure is ignored (\<open>v, _ := tx["k"].(T)\<close>), which yields the
  zero value of \<open>T\<close> when the key is missing or holds a value of another type.
\<close>

datatype json = JString string | JNumber f64 | JBool bool | JNull | JArray | JObject

type_synonym transaction = "string \<rightharpoonup> json"

definition str_field :: "transaction \<Rightarrow> string \<Rightarrow> string" where
  "str_field tx k = (case tx k of Some (JString s) \<Rightarrow> s | _ \<Rightarrow> [])"

definition num_field :: "transaction \<Rightarrow> string \<Rightarrow> f64" where
  "num_field tx k = (case tx k of Some (JNumber x) \<Rightarrow> x | _ \<Rightarrow> 0)"

subsection \<open>\<open>analyzeTransactions\<close>\<close>

record spend_state =
  totalSpent :: f64
  totalReceived :: f64
  spendCount :: int
  receiveCount :: int
  categorySpending :: "string \<rightharpoonup> f64"
  categoryCount :: "string \<rightharpoonup> int"

definition spend_init :: spend_state where
  "spend_init = \<lparr>totalSpent = 0, totalReceived = 0, spendCount = 0, receiveCount = 0,
     categorySpending = Map.empty, categoryCount = Map.empty\<rparr>"

text \<open>Reading a Go map at a missing key gives the zero value.\<close>

definition get0 :: "(string \<rightharpoonup> 'a::zero) \<Rightarrow> string \<Rightarrow> 'a" where
  "get0 m k = (case m k of None \<Rightarrow> 0 | Some v \<Rightarrow> v)"

text \<open>The body of the loop over the transactions.\<close>

definition spend_step ::
    "(string \<Rightarrow> string) \<Rightarrow> spend_state \<Rightarrow> transaction \<Rightarrow> spend_state" where
  "spend_step toLower st tx =
     (let txType = str_field tx ''type'';
          amount = num_field tx ''amount'';
          description = str_field tx ''description'';
          category = categorizeTransaction toLower description
      in if txType = ''send'' then
           st\<lparr>totalSpent := fadd (totalSpent st) amount,
              spendCount := spendCount st + 1,
              categorySpending := (categorySpending st)
                 (category \<mapsto> fadd (get0 (categorySpending st) category) amount),
              categoryCount := (categoryCount st)
                 (category \<mapsto> get0 (categoryCount st) category + 1)\<rparr>
         else if txType = ''receive'' then
           st\<lparr>totalReceived := fadd (totalReceived st) amount,
              receiveCount := receiveCount st + 1\<rparr>
         else st)"

fun spend_loop ::
    "(string \<Rightarrow> string) \<Rightarrow> spend_state \<Rightarrow> transaction list \<Rightarrow> spend_state" where
  "spend_loop toLower st [] = st"
| "spend_loop toLower st (tx # txs) = spend_loop toLower (spend_step toLower st tx) txs"

record categoryInfo =
  ci_name :: string
  ci_amount :: f64
  ci_count :: int
  ci_percentage :: f64

text \<open>
  \<open>for name, amount := range categorySpending\<close>: Go leaves the order of a map iteration
  open, so the order is a parameter, a list of names; the names that are keys of the map
  are visited in the order of that list.
\<close>

fun build_categories :: "spend_state \<Rightarrow> string list \<Rightarrow> categoryInfo list" where
  "build_categories st [] = []"
| "build_categories st (name # names) =
     (case categorySpending st name of
        None \<Rightarrow> build_categories st names
      | Some amount \<Rightarrow>
          \<lparr>ci_name = name, ci_amount = amount,
           ci_count = get0 (categoryCount st) name,
           ci_percentage =
             (if 0 < totalSpent st then fmul (fdiv amount (totalSpent st)) 100 else 0)\<rparr>
          # build_categories st names)"

text \<open>
  \<open>sort.Slice\<close> with \<open>categories[i].amount > categories[j].amount\<close>. On fewer than
  twelve elements Go's \<open>sort.Slice\<close> is an insertion sort, and the categoriser has six
  categories: an element moves towards the front past every element of strictly smaller
  amount.
\<close>

fun insert_desc :: "categoryInfo \<Rightarrow> categoryInfo list \<Rightarrow> categoryInfo list" where
  "insert_desc x [] = [x]"
| "insert_desc x (y # ys) =
     (if ci_amount x > ci_amount y then x # y # ys else y # insert_desc x ys)"

fun sort_desc :: "categoryInfo list \<Rightarrow> categoryInfo list \<Rightarrow> categoryInfo list" where
  "sort_desc acc [] = acc"
| "sort_desc acc (x # xs) = sort_desc (insert_desc x acc) xs"

text \<open>\<open>calculateVelocity\<close>; with \<open>days = 0\<close> the quotient is \<open>+Inf\<close> or NaN, and both
  comparisons fail.\<close>

definition calculateVelocity :: "int \<Rightarrow> int \<Rightarrow> string" where
  "calculateVelocity transactionCount days =
     (if days = 0 then ''high''
      else let txPerWeek = fmul (fdiv (float64 transactionCount) (float64 days)) 7
           in if txPerWeek < 2 then ''low''
              else if txPerWeek < 7 then ''moderate''
              else ''high'')"

text \<open>
  The result of \<open>analyzeTransactions\<close>, with the numbers before they are printed
  (\<open>%.2f\<close>, \<open>%.1f%%\<close>). The average daily spend and the insight sentences are derived
  from these fields and from \<open>days\<close> and are left out.
\<close>

record analysis =
  total_spent :: f64
  total_received :: f64
  net_cash_flow :: f64
  spend_count :: int
  receive_count :: int
  velocity :: string
  top_categories :: "categoryInfo list"

text \<open>\<open>None\<close> is the answer "No transactions found in the specified period".\<close>

definition analyzeTransactions ::
    "(string \<Rightarrow> string) \<Rightarrow> transaction list \<Rightarrow> int \<Rightarrow> string list
      \<Rightarrow> analysis option" where
  "analyzeTransactions toLower transactions days order =
     (if length transactions = 0 then None
      else let st = spend_loop toLower spend_init transactions;
               netCashFlow = fsub (totalReceived st) (totalSpent st);
               categories = sort_desc [] (build_categories st order);
               topCategories = take 5 categories
           in Some \<lparr>total_spent = totalSpent st, total_received = totalReceived st,
                net_cash_flow = netCashFlow, spend_count = spendCount st,
                receive_count = receiveCount st,
                velocity = calculateVelocity (spendCount st) days,
                top_categories = topCategories\<rparr>)"

subsection \<open>\<open>calculateSpending\<close> of the TypeScript client\<close>

text \<open>\<open>Math.round\<close> rounds to the nearest integer, a tie towards \<open>+\<infinity>\<close>.\<close>

definition js_round :: "f64 \<Rightarrow> f64" where
  "js_round x = of_int \<lfloor>x + 1 / 2\<rfloor>"

record category_entry =
  ce_amount :: f64
  ce_count :: int

text \<open>
  \<open>categoryMap\<close> is an object; \<open>Object.entries\<close> lists its keys in the order of their
  insertion, so it is an association list.
\<close>

fun category_add ::
    "(string \<times> category_entry) list \<Rightarrow> string \<Rightarrow> f64 \<Rightarrow> (string \<times> category_entry) list" where
  "category_add [] c a = [(c, \<lparr>ce_amount = fadd 0 a, ce_count = 1\<rparr>)]"
| "category_add ((k, e) # m) c a =
     (if k = c then (k, \<lparr>ce_amount = fadd (ce_amount e) a, ce_count = ce_count e + 1\<rparr>) # m
      else (k, e) # category_add m c a)"

text \<open>The state of the \<open>forEach\<close>: the category map and the running total.\<close>

fun outgoing_loop ::
    "(string \<Rightarrow> string) \<Rightarrow> (string \<times> category_entry) list \<times> f64 \<Rightarrow> ts_transaction list
      \<Rightarrow> (string \<times> category_entry) list \<times> f64" where
  "outgoing_loop toLowerCase (m, tot) [] = (m, tot)"
| "outgoing_loop toLowerCase (m, tot) (tx # txs) =
     outgoing_loop toLowerCase
       (category_add m (ts_categorizeTransaction toLowerCase tx) (ts_amount tx),
        fadd tot (ts_amount tx)) txs"

record spending_row =
  sp_category :: string
  sp_amount :: f64
  sp_percentage :: f64
  sp_count :: int

text \<open>\<open>Array.prototype.sort\<close> is stable; the comparator \<open>b.amount - a.amount\<close> puts
  the larger amount first.\<close>

fun insert_row :: "spending_row \<Rightarrow> spending_row list \<Rightarrow> spending_row list" where
  "insert_row x [] = [x]"
| "insert_row x (y # ys) =
     (if sp_amount x > sp_amount y then x # y # ys else y # insert_row x ys)"

fun sort_rows :: "spending_row list \<Rightarrow> spending_row list \<Rightarrow> spending_row list" where
  "sort_rows acc [] = acc"
| "sort_rows acc (x # xs) = sort_rows (insert_row x acc) xs"

definition is_outgoing :: "ts_transaction \<Rightarrow> bool" where
  "is_outgoing tx \<longleftrightarrow> (ts_type tx = Send \<or> ts_type tx = Withdrawal) \<and> ts_status tx = Completed"

definition calculateSpending ::
    "(string \<Rightarrow> string) \<Rightarrow> ts_transaction list \<Rightarrow> spending_row list" where
  "calculateSpending toLowerCase transactions =
     (let outgoing = filter is_outgoing transactions in
      if length outgoing = 0 then []
      else let (categoryMap, tot) = outgoing_loop toLowerCase ([], 0) outgoing;
               categories = map (\<lambda>(category, d).
                   \<lparr>sp_category = category,
                    sp_amount = fdiv (js_round (fmul (ce_amount d) 100)) 100,
                    sp_percentage =
                      (if 0 < tot then js_round (fmul (fdiv (ce_amount d) tot) 100) else 0),
                    sp_count = ce_count d\<rparr>) categoryMap
           in take 5 (sort_rows [] categories))"

subsection \<open>Inputs that differ only in the status field\<close>

definition same_but_status :: "transaction \<Rightarrow> transaction \<Rightarrow> bool" where
  "same_but_status a b \<longleftrightarrow> (\<forall>k. k \<noteq> ''status'' \<longrightarrow> a k = b k)"

text \<open>A completed and a pending copy of the same coffee purchase.\<close>

definition coffee_go :: transaction where
  "coffee_go = [''id'' \<mapsto> JString ''tx7'', ''type'' \<mapsto> JString ''send'',
     ''amount'' \<mapsto> JNumber (17 / 2), ''description'' \<mapsto> JString ''Starbucks Coffee'',
     ''status'' \<mapsto> JString ''completed'']"

definition coffee_ts :: ts_transaction where
  "coffee_ts = \<lparr>ts_id = ''tx7'', ts_amount = 17 / 2, ts_currency = ''USD'', ts_type = Send,
     ts_status = Completed, ts_description = ''Starbucks Coffee'',
     ts_createdAt = ''2024-01-01T00:00:00Z'', ts_counterparty = None\<rparr>"

section \<open>Subscription detector: dates, amounts and groups\<close>

subsection \<open>Instants and durations\<close>

text \<open>
  A \<open>time.Time\<close> is an instant, counted in nanoseconds since the Unix epoch, with the
  offset in seconds of the zone it is shown in. \<open>Before\<close> and \<open>Sub\<close> look at the
  instant only. A \<open>time.Duration\<close> is an \<open>int64\<close> of nanoseconds, and \<open>Sub\<close>
  saturates at its bounds.
\<close>

record gotime =
  t_nanos :: int
  t_offset :: int

definition before :: "gotime \<Rightarrow> gotime \<Rightarrow> bool" where
  "before t u \<longleftrightarrow> t_nanos t < t_nanos u"

definition time_sub :: "gotime \<Rightarrow> gotime \<Rightarrow> int" where
  "time_sub t u =
     (let d = t_nanos t - t_nanos u in
      if d < - (2 ^ 63) then - (2 ^ 63) else if 2 ^ 63 - 1 < d then 2 ^ 63 - 1 else d)"

text \<open>Go's integer division truncates towards zero; the remainder has the sign of the
  dividend.\<close>

definition go_quot :: "int \<Rightarrow> int \<Rightarrow> int" where
  "go_quot a b = sgn a * sgn b * (\<bar>a\<bar> div \<bar>b\<bar>)"

definition go_rem :: "int \<Rightarrow> int \<Rightarrow> int" where
  "go_rem a b = a - b * go_quot a b"

definition hour_ns :: int where
  "hour_ns = 3600 * 10 ^ 9"

text \<open>
  \<open>Duration.Hours\<close> of the standard library:
  \<open>hour := d / Hour; nsec := d % Hour; return float64(hour) + float64(nsec)/(60*60*1e9)\<close>.
\<close>

definition hours :: "int \<Rightarrow> f64" where
  "hours d =
     (let hour = go_quot d hour_ns; nsec = go_rem d hour_ns
      in fadd (float64 hour) (fdiv (float64 nsec) (fl (60 * 60 * 10 ^ 9))))"

text \<open>\<open>int(x)\<close> for a float64 in the range of \<open>int\<close>: the fraction is dropped.\<close>

definition go_int :: "f64 \<Rightarrow> int" where
  "go_int x = (if 0 \<le> x then \<lfloor>x\<rfloor> else \<lceil>x\<rceil>)"

text \<open>\<open>daysBetween := int(dates[i].Sub(dates[i-1]).Hours() / 24)\<close>\<close>

definition daysBetween :: "gotime \<Rightarrow> gotime \<Rightarrow> int" where
  "daysBetween later earlier = go_int (fdiv (hours (time_sub later earlier)) 24)"

fun intervals_of :: "gotime list \<Rightarrow> int list" where
  "intervals_of (a # b # rest) = daysBetween b a # intervals_of (b # rest)"
| "intervals_of _ = []"

text \<open>
  \<open>sort.Slice(dates, ... dates[i].Before(dates[j]))\<close>, as the insertion sort that moves
  a date towards the front past every later date. (Go sorts twelve or more elements with
  an unstable algorithm; dates that are not ordered by \<open>Before\<close> are the same instant, so
  the intervals and the number of dates are the same for every such order.)
\<close>

fun insert_time :: "gotime \<Rightarrow> gotime list \<Rightarrow> gotime list" where
  "insert_time x [] = [x]"
| "insert_time x (y # ys) = (if before x y then x # y # ys else y # insert_time x ys)"

fun sort_times :: "gotime list \<Rightarrow> gotime list \<Rightarrow> gotime list" where
  "sort_times acc [] = acc"
| "sort_times acc (x # xs) = sort_times (insert_time x acc) xs"

subsection \<open>The standard library's calendar\<close>

text \<open>
  Parsing and printing dates and calendar arithmetic belong to Go's \<open>time\<close> package.
  They are parameters of the model: \<open>parseRFC3339\<close> is \<open>time.Parse(time.RFC3339, s)\<close>
  (\<open>None\<close> for an error), \<open>parseDate\<close> is \<open>time.Parse("2006-01-02", s)\<close>,
  \<open>formatDate\<close> is \<open>t.Format("2006-01-02")\<close> and \<open>addDate\<close> is \<open>t.AddDate\<close>.
\<close>

record timelib =
  parseRFC3339 :: "string \<Rightarrow> gotime option"
  parseDate :: "string \<Rightarrow> gotime option"
  formatDate :: "gotime \<Rightarrow> string"
  addDate :: "gotime \<Rightarrow> int \<Rightarrow> int \<Rightarrow> int \<Rightarrow> gotime"

subsection \<open>Printing and reading amounts\<close>

definition digit_char :: "nat \<Rightarrow> char" where
  "digit_char n = ''0123456789'' ! (n mod 10)"

function digits_of :: "nat \<Rightarrow> string" where
  "digits_of n = (if n < 10 then [digit_char n]
                  else digits_of (n div 10) @ [digit_char (n mod 10)])"
  by pat_completeness auto
termination
  by (relation "measure id") auto

text \<open>
  \<open>fmt.Sprintf("%.2f", x)\<close>: the exact value of the double is rounded to two decimals,
  a tie to the even digit, and printed with a sign, the integer digits, a point and two
  digits.
\<close>

definition fmt2 :: "f64 \<Rightarrow> string" where
  "fmt2 x =
     (let cents = nat (rne (\<bar>x\<bar> * 100))
      in (if x < 0 then ''-'' else []) @ digits_of (cents div 100) @ ''.'' @
         [digit_char (cents mod 100 div 10), digit_char (cents mod 10)])"

definition is_digit :: "char \<Rightarrow> bool" where
  "is_digit c \<longleftrightarrow> 48 \<le> (of_char c :: nat) \<and> (of_char c :: nat) \<le> 57"

text \<open>The value of a digit string read from the left.\<close>

fun digits_value :: "nat \<Rightarrow> string \<Rightarrow> nat" where
  "digits_value acc [] = acc"
| "digits_value acc (c # cs) = digits_value (10 * acc + (of_char c - 48)) cs"

text \<open>
  \<open>strconv.ParseFloat(s, 64)\<close> on the plain decimal numerals that \<open>%.2f\<close> prints: an
  optional minus sign, digits, a point, digits. The decimal value is rounded to the
  nearest double. Other input is an error here (Go accepts more forms, which the keys of
  the groups never have).
\<close>

definition parse_decimal :: "string \<Rightarrow> rat option" where
  "parse_decimal s =
     (let ip = takeWhile (\<lambda>c. c \<noteq> CHR ''.'') s;
          fp = drop (length ip + 1) s
      in if ip \<noteq> [] \<and> list_all is_digit ip \<and> list_all is_digit fp \<and> length ip < length s
         then Some (of_nat (digits_value 0 ip) + of_nat (digits_value 0 fp) / 10 ^ length fp)
         else None)"

definition parseFloat :: "string \<Rightarrow> f64 option" where
  "parseFloat s =
     (case s of
        [] \<Rightarrow> None
      | c # cs \<Rightarrow>
          if c = CHR ''-'' then map_option (\<lambda>v. fl (- v)) (parse_decimal cs)
          else map_option fl (parse_decimal s))"

subsection \<open>\<open>analyzeForSubscriptions\<close>\<close>

text \<open>The key of a group: the merchant and the amount printed with two decimals.\<close>

type_synonym paymentKey = "string \<times> string"

text \<open>The merchant: the description, else the recipient, else \<open>Unknown\<close>.\<close>

definition merchant_of :: "transaction \<Rightarrow> string" where
  "merchant_of tx =
     (case tx ''description'' of
        Some (JString desc) \<Rightarrow>
          if desc \<noteq> [] then desc
          else (case tx ''recipient'' of
                  Some (JString recipient) \<Rightarrow> if recipient \<noteq> [] then recipient else ''Unknown''
                | _ \<Rightarrow> ''Unknown'')
      | _ \<Rightarrow>
          (case tx ''recipient'' of
             Some (JString recipient) \<Rightarrow> if recipient \<noteq> [] then recipient else ''Unknown''
           | _ \<Rightarrow> ''Unknown''))"

text \<open>
  The tests a transaction passes before it is filed: outgoing, amount within the bounds,
  a date that parses and is not before the cutoff. The result is the parsed date.
\<close>

definition qualifying_date ::
    "timelib \<Rightarrow> gotime \<Rightarrow> f64 \<Rightarrow> f64 \<Rightarrow> transaction \<Rightarrow> gotime option" where
  "qualifying_date L cutoffDate minAmount maxAmount tx =
     (if str_field tx ''type'' \<noteq> ''send'' then None
      else let amount = num_field tx ''amount'' in
        if amount < minAmount \<or> amount > maxAmount then None
        else (case tx ''date'' of
                Some (JString txDateStr) \<Rightarrow>
                  (case parseRFC3339 L txDateStr of
                     None \<Rightarrow> None
                   | Some txDate \<Rightarrow> if before txDate cutoffDate then None else Some txDate)
              | _ \<Rightarrow> None))"

definition group_key :: "transaction \<Rightarrow> paymentKey" where
  "group_key tx = (merchant_of tx, fmt2 (num_field tx ''amount''))"

text \<open>Reading a map of slices at a missing key gives the empty slice.\<close>

definition dates_at :: "(paymentKey \<rightharpoonup> gotime list) \<Rightarrow> paymentKey \<Rightarrow> gotime list" where
  "dates_at groups k = (case groups k of None \<Rightarrow> [] | Some ds \<Rightarrow> ds)"

text \<open>The body of the first loop: \<open>paymentGroups[key] = append(paymentGroups[key], txDate)\<close>.\<close>

definition group_step ::
    "timelib \<Rightarrow> gotime \<Rightarrow> f64 \<Rightarrow> f64 \<Rightarrow> (paymentKey \<rightharpoonup> gotime list) \<Rightarrow> transaction
      \<Rightarrow> (paymentKey \<rightharpoonup> gotime list)" where
  "group_step L cutoffDate minAmount maxAmount groups tx =
     (case qualifying_date L cutoffDate minAmount maxAmount tx of
        None \<Rightarrow> groups
      | Some txDate \<Rightarrow> groups(group_key tx \<mapsto> dates_at groups (group_key tx) @ [txDate]))"

fun group_loop ::
    "timelib \<Rightarrow> gotime \<Rightarrow> f64 \<Rightarrow> f64 \<Rightarrow> (paymentKey \<rightharpoonup> gotime list) \<Rightarrow> transaction list
      \<Rightarrow> (paymentKey \<rightharpoonup> gotime list)" where
  "group_loop L c lo hi groups [] = groups"
| "group_loop L c lo hi groups (tx # txs) =
     group_loop L c lo hi (group_step L c lo hi groups tx) txs"

definition paymentGroups ::
    "timelib \<Rightarrow> gotime \<Rightarrow> f64 \<Rightarrow> f64 \<Rightarrow> transaction list \<Rightarrow> (paymentKey \<rightharpoonup> gotime list)" where
  "paymentGroups L cutoffDate minAmount maxAmount transactions =
     group_loop L cutoffDate minAmount maxAmount Map.empty transactions"

record subscription =
  sub_merchant :: string
  sub_amount :: f64
  sub_frequency :: string
  sub_occurrences :: int
  sub_last_occurrence :: string
  sub_estimated_next :: string
  sub_total_paid :: f64
  sub_confidence :: string

definition estimateNextPayment :: "timelib \<Rightarrow> gotime \<Rightarrow> string \<Rightarrow> string" where
  "estimateNextPayment L lastPayment frequency =
     (if frequency = ''monthly'' then formatDate L (addDate L lastPayment 0 1 0)
      else if frequency = ''quarterly'' then formatDate L (addDate L lastPayment 0 3 0)
      else if frequency = ''semi-annual'' then formatDate L (addDate L lastPayment 0 6 0)
      else if frequency = ''annual'' then formatDate L (addDate L lastPayment 1 0 0)
      else if frequency = ''biweekly'' then formatDate L (addDate L lastPayment 0 0 14)
      else if frequency = ''weekly'' then formatDate L (addDate L lastPayment 0 0 7)
      else ''unknown'')"

text \<open>
  The body of the second loop, for one key and its dates: \<open>None\<close> when the loop goes on
  without appending a subscription.
\<close>

definition group_subscription ::
    "timelib \<Rightarrow> paymentKey \<Rightarrow> gotime list \<Rightarrow> subscription option" where
  "group_subscription L key dates =
     (if length dates < 2 then None
      else let sorted_dates = sort_times [] dates;
               intervals = intervals_of sorted_dates
           in if isRegularPattern intervals then
                let amount = (case parseFloat (snd key) of None \<Rightarrow> 0 | Some a \<Rightarrow> a);
                    frequency = detectFrequency intervals
                in Some \<lparr>sub_merchant = fst key,
                     sub_amount = amount,
                     sub_frequency = frequency,
                     sub_occurrences = int (length sorted_dates),
                     sub_last_occurrence = formatDate L (last sorted_dates),
                     sub_estimated_next = estimateNextPayment L (last sorted_dates) frequency,
                     sub_total_paid = fmul amount (float64 (int (length sorted_dates))),
                     sub_confidence =
                       calculateConfidence (int (length sorted_dates)) intervals\<rparr>
              else None)"

text \<open>
  \<open>for key, dates := range paymentGroups\<close>: the order of the keys is the parameter
  \<open>order\<close>, as for the categories above.
\<close>

fun subscriptions_loop ::
    "timelib \<Rightarrow> (paymentKey \<rightharpoonup> gotime list) \<Rightarrow> paymentKey list \<Rightarrow> subscription list" where
  "subscriptions_loop L groups [] = []"
| "subscriptions_loop L groups (key # keys) =
     (case groups key of
        None \<Rightarrow> subscriptions_loop L groups keys
      | Some dates \<Rightarrow>
          (case group_subscription L key dates of
             None \<Rightarrow> subscriptions_loop L groups keys
           | Some s \<Rightarrow> s # subscriptions_loop L groups keys))"

definition analyzeForSubscriptions ::
    "timelib \<Rightarrow> transaction list \<Rightarrow> gotime \<Rightarrow> f64 \<Rightarrow> f64 \<Rightarrow> paymentKey list
      \<Rightarrow> subscription list" where
  "analyzeForSubscriptions L transactions cutoffDate minAmount maxAmount order =
     (if length transactions = 0 then []
      else subscriptions_loop L
             (paymentGroups L cutoffDate minAmount maxAmount transactions) order)"

subsection \<open>A calendar for the examples: UTC\<close>

text \<open>
  The examples below run the detector with a concrete calendar: the proleptic Gregorian
  calendar in UTC, reading timestamps of the form \<open>2024-01-31T00:00:00Z\<close> and dates of
  the form \<open>2024-01-31\<close>.
\<close>

definition days_from_civil :: "int \<Rightarrow> int \<Rightarrow> int \<Rightarrow> int" where
  "days_from_civil y m d =
     (let y' = (if m \<le> 2 then y - 1 else y);
          era = y' div 400;
          yoe = y' - era * 400;
          mp = (m + 9) mod 12;
          doy = (153 * mp + 2) div 5 + d - 1;
          doe = yoe * 365 + yoe div 4 - yoe div 100 + doy
      in era * 146097 + doe - 719468)"

definition civil_from_days :: "int \<Rightarrow> int \<times> int \<times> int" where
  "civil_from_days z =
     (let z' = z + 719468;
          era = z' div 146097;
          doe = z' - era * 146097;
          yoe = (doe - doe div 1460 + doe div 36524 - doe div 146096) div 365;
          doy = doe - (365 * yoe + yoe div 4 - yoe div 100);
          mp = (5 * doy + 2) div 153;
          d = doy - (153 * mp + 2) div 5 + 1;
          m = (if mp < 10 then mp + 3 else mp - 9);
          y = yoe + era * 400
      in (if m \<le> 2 then y + 1 else y, m, d))"

definition day_ns :: int where
  "day_ns = 24 * hour_ns"

definition field_value :: "string \<Rightarrow> nat \<Rightarrow> nat \<Rightarrow> int option" where
  "field_value s i n =
     (let f = take n (drop i s)
      in if length f = n \<and> list_all is_digit f then Some (int (digits_value 0 f)) else None)"

definition valid_date :: "int \<Rightarrow> int \<Rightarrow> int \<Rightarrow> bool" where
  "valid_date y m d \<longleftrightarrow>
     1 \<le> m \<and> m \<le> 12 \<and> 1 \<le> d \<and> civil_from_days (days_from_civil y m d) = (y, m, d)"

definition utc_parseDate :: "string \<Rightarrow> gotime option" where
  "utc_parseDate s =
     (case (field_value s 0 4, field_value s 5 2, field_value s 8 2) of
        (Some y, Some m, Some d) \<Rightarrow>
          if length s = 10 \<and> s ! 4 = CHR ''-'' \<and> s ! 7 = CHR ''-'' \<and> valid_date y m d
          then Some \<lparr>t_nanos = days_from_civil y m d * day_ns, t_offset = 0\<rparr>
          else None
      | _ \<Rightarrow> None)"

definition utc_parseRFC3339 :: "string \<Rightarrow> gotime option" where
  "utc_parseRFC3339 s =
     (case (utc_parseDate (take 10 s),
            field_value s 11 2, field_value s 14 2, field_value s 17 2) of
        (Some day, Some h, Some mi, Some sec) \<Rightarrow>
          if length s = 20 \<and> s ! 10 = CHR ''T'' \<and> s ! 13 = CHR '':'' \<and> s ! 16 = CHR '':''
             \<and> s ! 19 = CHR ''Z'' \<and> h < 24 \<and> mi < 60 \<and> sec < 60
          then Some \<lparr>t_nanos = t_nanos day + ((h * 60 + mi) * 60 + sec) * 10 ^ 9,
                     t_offset = 0\<rparr>
          else None
      | _ \<Rightarrow> None)"

definition pad2 :: "int \<Rightarrow> string" where
  "pad2 n = [digit_char (nat n div 10), digit_char (nat n)]"

definition pad4 :: "int \<Rightarrow> string" where
  "pad4 n = pad2 (n div 100) @ pad2 (n mod 100)"

definition utc_formatDate :: "gotime \<Rightarrow> string" where
  "utc_formatDate t =
     (case civil_from_days (t_nanos t div day_ns) of
        (y, m, d) \<Rightarrow> pad4 y @ ''-'' @ pad2 m @ ''-'' @ pad2 d)"

text \<open>\<open>AddDate\<close> normalises as \<open>time.Date\<close> does: months overflow into years, days
  into months.\<close>

definition utc_addDate :: "gotime \<Rightarrow> int \<Rightarrow> int \<Rightarrow> int \<Rightarrow> gotime" where
  "utc_addDate t years months days =
     (case civil_from_days (t_nanos t div day_ns) of
        (y, m, d) \<Rightarrow>
          let m0 = m - 1 + months;
              y1 = y + years + m0 div 12;
              m1 = m0 mod 12 + 1
          in \<lparr>t_nanos = (days_from_civil y1 m1 1 + (d - 1) + days) * day_ns
                 + t_nanos t mod day_ns,
               t_offset = 0\<rparr>)"

definition utc :: timelib where
  "utc = \<lparr>parseRFC3339 = utc_parseRFC3339, parseDate = utc_parseDate,
     formatDate = utc_formatDate, addDate = utc_addDate\<rparr>"

subsection \<open>Example transactions\<close>

definition payment :: "string \<Rightarrow> f64 \<Rightarrow> string \<Rightarrow> transaction" where
  "payment description amount date =
     [''type'' \<mapsto> JString ''send'', ''amount'' \<mapsto> JNumber amount,
      ''description'' \<mapsto> JString description, ''date'' \<mapsto> JString date]"

text \<open>Four Netflix payments thirty days apart, two gym payments at irregular distances
  apart from a single coffee.\<close>

definition example_txs :: "transaction list" where
  "example_txs =
     [payment ''Netflix Subscription'' (fl (1599 / 100)) ''2024-01-01T00:00:00Z'',
      payment ''Netflix Subscription'' (fl (1599 / 100)) ''2024-01-31T00:00:00Z'',
      payment ''Planet Fitness'' 25 ''2024-01-05T00:00:00Z'',
      payment ''Netflix Subscription'' (fl (1599 / 100)) ''2024-03-01T00:00:00Z'',
      payment ''Planet Fitness'' 25 ''2024-01-15T00:00:00Z'',
      payment ''Starbucks Coffee'' (17 / 2) ''2024-02-02T00:00:00Z'',
      payment ''Planet Fitness'' 25 ''2024-03-15T00:00:00Z'',
      payment ''Netflix Subscription'' (fl (1599 / 100)) ''2024-03-31T00:00:00Z'',
      payment ''Planet Fitness'' 25 ''2024-03-20T00:00:00Z'']"

definition example_cutoff :: gotime where
  "example_cutoff = \<lparr>t_nanos = days_from_civil 2023 12 1 * day_ns, t_offset = 0\<rparr>"

definition example_order :: "paymentKey list" where
  "example_order = [(''Starbucks Coffee'', ''8.50''), (''Planet Fitness'', ''25.00''),
     (''Netflix Subscription'', ''15.99'')]"

subsection \<open>The specification's reading of the groups and of the regularity test\<close>

text \<open>
  The regularity test in the words of the specification, in exact arithmetic: \<open>avg\<close> is
  the arithmetic mean of the intervals, an interval is within tolerance when
  \<open>|interval - avg| \<le> 0.2 * avg\<close>, and the pattern is regular when at least 70% of the
  intervals are within tolerance.
\<close>

definition exact_mean :: "int list \<Rightarrow> rat" where
  "exact_mean xs = of_int (sum_list xs) / of_nat (length xs)"

definition exact_within :: "rat \<Rightarrow> int \<Rightarrow> bool" where
  "exact_within avg i \<longleftrightarrow> \<bar>of_int i - avg\<bar> \<le> (2 / 10) * avg"

definition exact_regular :: "int list \<Rightarrow> bool" where
  "exact_regular xs \<longleftrightarrow>
     7 / 10 \<le> (of_nat (length (filter (exact_within (exact_mean xs)) xs)) :: rat)
                 / of_nat (length xs)"

text \<open>
  The dates of the group \<open>(merchant, amount)\<close>: those of the qualifying transactions, in
  the order of the input, whose merchant is \<open>merchant\<close> and whose amount prints as
  \<open>amount\<close> with two decimals.
\<close>

fun key_dates ::
    "timelib \<Rightarrow> gotime \<Rightarrow> f64 \<Rightarrow> f64 \<Rightarrow> paymentKey \<Rightarrow> transaction list \<Rightarrow> gotime list" where
  "key_dates L c lo hi k [] = []"
| "key_dates L c lo hi k (tx # txs) =
     (case qualifying_date L c lo hi tx of
        None \<Rightarrow> key_dates L c lo hi k txs
      | Some d \<Rightarrow>
          if merchant_of tx = fst k \<and> fmt2 (num_field tx ''amount'') = snd k
          then d # key_dates L c lo hi k txs
          else key_dates L c lo hi k txs)"

text \<open>
  The same test with every operation rounded to float64, as amended: the difference
  \<open>float64(interval) - avg\<close> and the product \<open>avg * 0.2\<close> are doubles.
\<close>

definition within_tolerance :: "f64 \<Rightarrow> int \<Rightarrow> bool" where
  "within_tolerance avg i \<longleftrightarrow> \<bar>fsub (float64 i) avg\<bar> \<le> fmul avg (fl (2 / 10))"

text \<open>The share of the intervals within tolerance of their float64 mean, itself a
  float64 quotient; it is compared with the double nearest to 0.7.\<close>

definition share_within :: "int list \<Rightarrow> f64" where
  "share_within xs =
     fdiv (float64 (int (length (filter (within_tolerance (mean_interval xs)) xs))))
          (float64 (int (length xs)))"

text \<open>The upper bound \<open>999.99\<close> of the tool, and the subscription found in the example.\<close>

definition example_max :: f64 where
  "example_max = fl (99999 / 100)"

definition netflix_subscription :: subscription where
  "netflix_subscription =
     \<lparr>sub_merchant = ''Netflix Subscription'', sub_amount = fl (1599 / 100),
      sub_frequency = ''monthly'', sub_occurrences = 4,
      sub_last_occurrence = ''2024-03-31'', sub_estimated_next = ''2024-05-01'',
      sub_total_paid = fmul (fl (1599 / 100)) 4, sub_confidence = ''high''\<rparr>"

section \<open>Monthly cost and warnings\<close>





subsection \<open>The specification's reading of the monthly cost\<close>






subsection \<open>Example subscriptions\<close>




subsection \<open>Example gaps\<close>

definition t_zero :: gotime where
  "t_zero = \<lparr>t_nanos = 0, t_offset = 0\<rparr>"

text \<open>29 days and 23 hours after \<open>t_zero\<close>.\<close>

definition t_29d23h :: gotime where
  "t_29d23h = \<lparr>t_nanos = 29 * day_ns + 23 * hour_ns, t_offset = 0\<rparr>"

text \<open>One nanosecond short of 171 days after \<open>t_zero\<close>.\<close>

definition t_171d_less_1ns :: gotime where
  "t_171d_less_1ns = \<lparr>t_nanos = 171 * day_ns - 1, t_offset = 0\<rparr>"

section \<open>Properties\<close>

subsection \<open>Evaluating the model on concrete input\<close>

text \<open>
  The rounding function is unfolded on numerals only, so that the simplifier computes
  with concrete doubles and leaves symbolic ones alone.
\<close>

declare expo_up.simps [simp del] expo_down.simps [simp del]

lemma floor_rat_numeral [simp]:
  "\<lfloor>(numeral a / numeral b :: rat)\<rfloor> = numeral a div numeral b"
  "\<lfloor>(1 / numeral b :: rat)\<rfloor> = 1 div numeral b"
  using floor_divide_of_int_eq [where ?'a = rat, of "numeral a" "numeral b"]
    floor_divide_of_int_eq [where ?'a = rat, of 1 "numeral b"] by simp_all

lemma floor_rat_neg_numeral [simp]:
  "\<lfloor>(- (numeral a / numeral b) :: rat)\<rfloor> = - numeral a div numeral b"
  "\<lfloor>(- (1 / numeral b) :: rat)\<rfloor> = - 1 div numeral b"
  using floor_divide_of_int_eq [where ?'a = rat, of "- numeral a" "numeral b"]
    floor_divide_of_int_eq [where ?'a = rat, of "- 1" "numeral b"] by simp_all

lemma fl_0: "fl 0 = 0"
  by (simp add: fl_def)

lemmas fl_num =
  fl_def [of 1] fl_def [of "- 1"] fl_def [of "numeral a"] fl_def [of "- numeral a"]
  fl_def [of "numeral a / numeral b"] fl_def [of "- (numeral a / numeral b)"]
  fl_def [of "1 / numeral b"] fl_def [of "- (1 / numeral b)"]
  for a b

lemmas fl_pos_num =
  fl_pos_def [of 1] fl_pos_def [of "numeral a"] fl_pos_def [of "numeral a / numeral b"]
  fl_pos_def [of "1 / numeral b"]
  for a b

lemmas expo_num =
  expo_def [of 1] expo_def [of "numeral a"] expo_def [of "numeral a / numeral b"]
  expo_def [of "1 / numeral b"]
  for a b

lemmas expo_up_num =
  expo_up.simps [of 1] expo_up.simps [of "numeral a"] expo_up.simps [of "numeral a / numeral b"]
  expo_up.simps [of "1 / numeral b"]
  for a b

lemmas expo_down_num =
  expo_down.simps [of 1] expo_down.simps [of "numeral a"]
  expo_down.simps [of "numeral a / numeral b"] expo_down.simps [of "1 / numeral b"]
  for a b

lemmas rne_num =
  rne_def [of 0] rne_def [of 1] rne_def [of "- 1"] rne_def [of "numeral a"]
  rne_def [of "- numeral a"]
  rne_def [of "numeral a / numeral b"] rne_def [of "- (numeral a / numeral b)"]
  rne_def [of "1 / numeral b"] rne_def [of "- (1 / numeral b)"]
  for a b

lemmas pow2_num =
  pow2_def [of 0] pow2_def [of 1] pow2_def [of "- 1"] pow2_def [of "numeral a"]
  pow2_def [of "- numeral a"]
  for a

lemmas float_eval = fl_0 fl_num fl_pos_num expo_num expo_up_num expo_down_num rne_num pow2_num fadd_def fsub_def
  fmul_def fdiv_def float64_def Let_def

lemmas string_eval = ascii_lower_def ascii_lower_char_def match_any_def digit_char_def is_digit_def

lemmas time_eval = daysBetween_def hours_def time_sub_def go_quot_def go_rem_def hour_ns_def
  go_int_def before_def day_ns_def

lemmas utc_eval = utc_def utc_parseRFC3339_def utc_parseDate_def utc_formatDate_def
  utc_addDate_def field_value_def valid_date_def days_from_civil_def civil_from_days_def
  pad2_def pad4_def

lemmas detector_eval = analyzeForSubscriptions_def paymentGroups_def group_step_def
  qualifying_date_def group_key_def merchant_of_def dates_at_def group_subscription_def
  estimateNextPayment_def isRegularPattern_def detectFrequency_def calculateConfidence_def
  fmt2_def parseFloat_def parse_decimal_def str_field_def num_field_def

lemmas example_eval = payment_def example_txs_def example_cutoff_def example_order_def
  example_max_def netflix_subscription_def

lemma sum_ints_sum_list: "sum_ints xs s = s + sum_list xs"
  by (induction xs arbitrary: s) simp_all

text \<open>
  Claim C2. For a non-empty interval list the frequency is the first of the inclusive
  ranges monthly 25-35, quarterly 80-100, semi-annual 170-190, annual 350-380,
  biweekly 7-14, weekly 1-7 (tried in this order) that holds the mean interval, and
  irregular when none does; a mean of exactly 35 is therefore monthly and a mean of
  exactly 7 is biweekly.
\<close>

theorem detectFrequency_ranges:
  assumes "intervals \<noteq> []"
  shows "detectFrequency intervals = first_range frequency_ranges (mean_interval intervals)
    \<and> (mean_interval intervals = 35 \<longrightarrow> detectFrequency intervals = ''monthly'')
    \<and> (mean_interval intervals = 7 \<longrightarrow> detectFrequency intervals = ''biweekly'')"
  using assms
  by (simp add: detectFrequency_def mean_interval_def frequency_ranges_def
      sum_ints_sum_list Let_def)

theorem detectFrequency_ranges_witness:
  "[30, 40] \<noteq> ([] :: int list) \<and> mean_interval [30, 40] = 35
    \<and> detectFrequency [30, 40] = ''monthly''
    \<and> [7] \<noteq> ([] :: int list) \<and> mean_interval [7] = 7
    \<and> detectFrequency [7] = ''biweekly''"
proof -
  have m1: "mean_interval [30, 40] = 35"
    by (simp add: mean_interval_def float_eval cong: let_weak_cong)
  have m2: "mean_interval [7] = 7"
    by (simp add: mean_interval_def float_eval cong: let_weak_cong)
  have n1: "[30, 40] \<noteq> ([] :: int list)" by simp
  have n2: "[7] \<noteq> ([] :: int list)" by simp
  have d1: "detectFrequency [30, 40] = ''monthly''"
    using detectFrequency_ranges [OF n1] m1 by blast
  have d2: "detectFrequency [7] = ''biweekly''"
    using detectFrequency_ranges [OF n2] m2 by blast
  from n1 n2 m1 m2 d1 d2 show ?thesis by blast
qed

subsection \<open>Categorisation\<close>

lemma hasPrefix_iff: "hasPrefix s p \<longleftrightarrow> (\<exists>b. s = p @ b)"
  by (induction s p rule: hasPrefix.induct) auto

text \<open>\<open>contains\<close> is the substring test.\<close>

lemma contains_iff: "contains s sub \<longleftrightarrow> (\<exists>a b. s = a @ sub @ b)"
proof (induction s)
  case Nil
  then show ?case by auto
next
  case (Cons c cs)
  note ih = Cons.IH
  show ?case
  proof
    assume "contains (c # cs) sub"
    then consider "hasPrefix (c # cs) sub" | "contains cs sub" by auto
    then show "\<exists>a b. c # cs = a @ sub @ b"
    proof cases
      case 1
      then obtain b where "c # cs = sub @ b" by (auto simp: hasPrefix_iff)
      then have "c # cs = [] @ sub @ b" by simp
      then show ?thesis by blast
    next
      case 2
      with ih obtain a b where "cs = a @ sub @ b" by blast
      then have "c # cs = (c # a) @ sub @ b" by simp
      then show ?thesis by blast
    qed
  next
    assume "\<exists>a b. c # cs = a @ sub @ b"
    then obtain a b where ab: "c # cs = a @ sub @ b" by blast
    show "contains (c # cs) sub"
    proof (cases a)
      case Nil
      with ab have "hasPrefix (c # cs) sub" by (auto simp: hasPrefix_iff)
      then show ?thesis by simp
    next
      case (Cons a0 a1)
      with ab have "cs = a1 @ sub @ b" by simp
      then have "\<exists>a b. cs = a @ sub @ b" by blast
      with ih have "contains cs sub" by simp
      then show ?thesis by simp
    qed
  qed
qed

lemma first_keyword_match_cases:
  "first_keyword_match tab s = ''Other'' \<or> first_keyword_match tab s \<in> fst ` set tab"
  by (induction tab s rule: first_keyword_match.induct) auto

text \<open>
  Claim C6, as amended. \<open>categorizeTransaction\<close> of \<open>main.go\<close> returns one of the six
  categories of the specification: the first category, in the order Food & Dining,
  Transportation, Shopping, Entertainment, Bills & Utilities, one of whose keywords occurs
  in the lower-cased description, and Other when none does. The TypeScript copy works on
  the lower-cased description and counterparty with its own keyword lists, in the same
  order, but goes on with Healthcare and Transfers before it answers Other: it returns one
  of eight categories. Both hold whatever the library's lowering function does.
\<close>

theorem categorize_priority_order:
  "categorizeTransaction toLower description
      = first_keyword_match go_keywords (toLower description)
   \<and> categorizeTransaction toLower description \<in> set spec_categories
   \<and> ts_categorizeTransaction toLowerCase tx
      = first_keyword_match ts_keywords (ts_text toLowerCase tx)
   \<and> ts_categorizeTransaction toLowerCase tx
      \<in> set spec_categories \<union> {''Healthcare'', ''Transfers''}"
proof -
  have g: "categorizeTransaction toLower description
      = first_keyword_match go_keywords (toLower description)"
    by (simp add: categorizeTransaction_def go_keywords_def Let_def)
  have t: "ts_categorizeTransaction toLowerCase tx
      = first_keyword_match ts_keywords (ts_text toLowerCase tx)"
    by (simp add: ts_categorizeTransaction_def ts_keywords_def match_any_def Let_def)
  have gs: "categorizeTransaction toLower description \<in> set spec_categories"
    using first_keyword_match_cases [of go_keywords "toLower description"]
    unfolding g by (auto simp: go_keywords_def spec_categories_def)
  have ts: "ts_categorizeTransaction toLowerCase tx
      \<in> set spec_categories \<union> {''Healthcare'', ''Transfers''}"
    using first_keyword_match_cases [of ts_keywords "ts_text toLowerCase tx"]
    unfolding t by (auto simp: ts_keywords_def spec_categories_def)
  from g t gs ts show ?thesis by blast
qed

text \<open>
  The claim as stated fails for the TypeScript copy: a payment described as
  \<open>CVS Pharmacy\<close> is put in Healthcare, which is not one of the six categories. The
  description is ASCII, so \<open>toLowerCase\<close> lowers it as \<open>ascii_lower\<close> does.
\<close>

theorem ts_categorize_healthcare:
  "ts_categorizeTransaction ascii_lower pharmacy_tx = ''Healthcare''
   \<and> ts_categorizeTransaction ascii_lower pharmacy_tx \<notin> set spec_categories"
  by (simp add: ts_categorizeTransaction_def ts_text_def pharmacy_tx_def spec_categories_def
      string_eval cong: let_weak_cong)

subsection \<open>The status field\<close>

lemma str_field_same:
  "same_but_status a b \<Longrightarrow> k \<noteq> ''status'' \<Longrightarrow> str_field a k = str_field b k"
  by (simp add: same_but_status_def str_field_def)

lemma num_field_same:
  "same_but_status a b \<Longrightarrow> k \<noteq> ''status'' \<Longrightarrow> num_field a k = num_field b k"
  by (simp add: same_but_status_def num_field_def)

lemma spend_step_same:
  assumes "same_but_status a b"
  shows "spend_step toLower st a = spend_step toLower st b"
proof -
  have "str_field a ''type'' = str_field b ''type''"
    "num_field a ''amount'' = num_field b ''amount''"
    "str_field a ''description'' = str_field b ''description''"
    using assms by (simp_all add: str_field_same num_field_same)
  then show ?thesis by (simp add: spend_step_def)
qed

lemma spend_loop_same:
  "list_all2 same_but_status xs ys \<Longrightarrow> spend_loop toLower st xs = spend_loop toLower st ys"
proof (induction xs ys arbitrary: st rule: list_all2_induct)
  case Nil
  show ?case by simp
next
  case (Cons x xs y ys)
  then show ?case by (simp add: spend_step_same)
qed

lemma filter_outgoing_completed:
  "filter is_outgoing (filter (\<lambda>t. ts_status t = Completed) ts) = filter is_outgoing ts"
  by (induction ts) (auto simp: is_outgoing_def)

text \<open>
  Claim C7, as amended. \<open>analyzeTransactions\<close> of \<open>main.go\<close> never reads the status:
  two transaction lists that differ only in status fields give the same totals, counts,
  category sums and top categories. The TypeScript \<open>calculateSpending\<close> does filter on
  it: only transactions whose status is \<open>completed\<close> enter its aggregates, so its result
  is that of the completed transactions alone.
\<close>

theorem status_only_filtered_by_client:
  assumes "list_all2 same_but_status txs txs'"
  shows "analyzeTransactions toLower txs days order
      = analyzeTransactions toLower txs' days order
    \<and> calculateSpending toLowerCase ts
      = calculateSpending toLowerCase (filter (\<lambda>t. ts_status t = Completed) ts)"
proof -
  have len: "length txs = length txs'"
    using assms by (rule list_all2_lengthD)
  have loop: "spend_loop toLower spend_init txs = spend_loop toLower spend_init txs'"
    using assms by (rule spend_loop_same)
  have go: "analyzeTransactions toLower txs days order
      = analyzeTransactions toLower txs' days order"
    by (simp add: analyzeTransactions_def len loop)
  have client: "calculateSpending toLowerCase ts
      = calculateSpending toLowerCase (filter (\<lambda>t. ts_status t = Completed) ts)"
    by (simp only: calculateSpending_def filter_outgoing_completed)
  from go client show ?thesis by blast
qed

theorem status_only_filtered_by_client_witness:
  "list_all2 same_but_status [coffee_go] [coffee_go(''status'' \<mapsto> JString ''pending'')]
   \<and> analyzeTransactions ascii_lower [coffee_go] 30 spec_categories
     = analyzeTransactions ascii_lower [coffee_go(''status'' \<mapsto> JString ''pending'')] 30
         spec_categories
   \<and> calculateSpending ascii_lower [coffee_ts]
     = calculateSpending ascii_lower (filter (\<lambda>t. ts_status t = Completed) [coffee_ts])"
proof -
  have h: "list_all2 same_but_status [coffee_go]
      [coffee_go(''status'' \<mapsto> JString ''pending'')]"
    by (simp add: same_but_status_def)
  from h status_only_filtered_by_client [OF h, of ascii_lower 30 spec_categories ascii_lower
      "[coffee_ts]"]
  show ?thesis by blast
qed

text \<open>
  The claim as stated fails for \<open>calculateSpending\<close>: the coffee purchase is counted
  while its status is \<open>completed\<close> and is not counted when the status is \<open>pending\<close>,
  everything else being equal.
\<close>

theorem calculateSpending_depends_on_status:
  "calculateSpending ascii_lower [coffee_ts]
     = [\<lparr>sp_category = ''Food & Dining'', sp_amount = 17 / 2, sp_percentage = 100,
         sp_count = 1\<rparr>]
   \<and> calculateSpending ascii_lower [coffee_ts\<lparr>ts_status := Pending\<rparr>] = []"
  by (simp add: calculateSpending_def is_outgoing_def coffee_ts_def ts_categorizeTransaction_def
      ts_text_def js_round_def string_eval float_eval cong: let_weak_cong)

subsection \<open>Groups and subscriptions\<close>

lemma count_within_filter:
  "count_within avg tol xs w
     = w + int (length (filter (\<lambda>i. \<bar>fsub (float64 i) avg\<bar> \<le> tol) xs))"
  by (induction xs arbitrary: w) simp_all

lemma within_tolerance_fun:
  "within_tolerance avg = (\<lambda>i. \<bar>fsub (float64 i) avg\<bar> \<le> fmul avg (fl (2 / 10)))"
  by (rule ext) (simp add: within_tolerance_def)

lemma isRegularPattern_share:
  "xs \<noteq> [] \<Longrightarrow> isRegularPattern xs \<longleftrightarrow> fl (7 / 10) \<le> share_within xs"
  by (simp add: isRegularPattern_def share_within_def mean_interval_def Let_def
      sum_ints_sum_list count_within_filter within_tolerance_fun)

lemma length_insert_time: "length (insert_time x ys) = Suc (length ys)"
  by (induction ys) simp_all

lemma length_sort_times: "length (sort_times acc xs) = length acc + length xs"
  by (induction xs arbitrary: acc) (simp_all add: length_insert_time)

lemma group_loop_key_dates:
  "group_loop L c lo hi g txs k =
     (if key_dates L c lo hi k txs = [] then g k
      else Some (dates_at g k @ key_dates L c lo hi k txs))"
proof (induction txs arbitrary: g)
  case Nil
  show ?case by simp
next
  case (Cons tx txs)
  show ?case
  proof (cases "qualifying_date L c lo hi tx")
    case None
    then show ?thesis by (simp add: Cons.IH group_step_def)
  next
    case (Some d)
    show ?thesis
    proof (cases "group_key tx = k")
      case True
      then have k: "merchant_of tx = fst k" "fmt2 (num_field tx ''amount'') = snd k"
        by (auto simp: group_key_def)
      show ?thesis using Some True k
        by (simp add: Cons.IH group_step_def dates_at_def)
    next
      case False
      then have nk: "(merchant_of tx = fst k \<and> fmt2 (num_field tx ''amount'') = snd k) = False"
        by (cases k) (auto simp: group_key_def)
      show ?thesis using Some False
        by (simp add: Cons.IH group_step_def dates_at_def nk)
    qed
  qed
qed

lemma paymentGroups_key_dates:
  "paymentGroups L c lo hi txs k =
     (if key_dates L c lo hi k txs = [] then None else Some (key_dates L c lo hi k txs))"
  by (simp add: paymentGroups_def group_loop_key_dates dates_at_def)

lemma subscriptions_loop_mem:
  "s \<in> set (subscriptions_loop L g keys) \<Longrightarrow>
     \<exists>k ds. k \<in> set keys \<and> g k = Some ds \<and> group_subscription L k ds = Some s"
  by (induction keys) (auto split: option.splits)

lemma analyzeForSubscriptions_mem:
  assumes "s \<in> set (analyzeForSubscriptions L txs c lo hi order)"
  shows "\<exists>k ds. k \<in> set order \<and> paymentGroups L c lo hi txs k = Some ds
           \<and> group_subscription L k ds = Some s"
proof -
  from assms have "s \<in> set (subscriptions_loop L (paymentGroups L c lo hi txs) order)"
    by (simp add: analyzeForSubscriptions_def split: if_splits)
  then show ?thesis by (rule subscriptions_loop_mem)
qed

lemma group_subscription_Some:
  assumes "group_subscription L k ds = Some s"
  shows "2 \<le> length ds" "isRegularPattern (intervals_of (sort_times [] ds))"
    "sub_occurrences s = int (length ds)"
    "sub_confidence s = calculateConfidence (int (length ds)) (intervals_of (sort_times [] ds))"
    "sub_merchant s = fst k"
  using assms
  by (auto simp: group_subscription_def Let_def length_sort_times split: if_splits)

subsection \<open>The example run\<close>

lemma example_result:
  "analyzeForSubscriptions utc example_txs example_cutoff 1 example_max example_order
     = [netflix_subscription]"
  by (simp add: detector_eval example_eval string_eval float_eval time_eval utc_eval
      cong: let_weak_cong)

lemma example_coffee_group:
  "paymentGroups utc example_cutoff 1 example_max example_txs (''Starbucks Coffee'', ''8.50'')
     = Some [\<lparr>t_nanos = 1706832000000000000, t_offset = 0\<rparr>]"
  by (simp add: detector_eval example_eval string_eval float_eval time_eval utc_eval
      cong: let_weak_cong)

lemma example_gym_intervals:
  "map_option (\<lambda>ds. intervals_of (sort_times [] ds))
     (paymentGroups utc example_cutoff 1 example_max example_txs (''Planet Fitness'', ''25.00''))
     = Some [10, 60, 5]"
  by (simp add: detector_eval example_eval string_eval float_eval time_eval utc_eval
      cong: let_weak_cong)

lemma irregular_example: "isRegularPattern [10, 60, 5] = False"
  by (simp add: isRegularPattern_def float_eval cong: let_weak_cong)

lemma fmt2_examples:
  "fmt2 (fl (999 / 100)) = ''9.99''" "fmt2 (fl (9994 / 1000)) = ''9.99''"
  "fmt2 (fl (1000 / 100)) = ''10.00''"
  by (simp_all add: fmt2_def string_eval float_eval cong: let_weak_cong)

text \<open>
  Claim C3. The group of a key \<open>(merchant, amount)\<close> holds exactly the dates of the
  qualifying outgoing transactions whose merchant string is \<open>merchant\<close> and whose amount
  prints as \<open>amount\<close> with two decimals, so two qualifying transactions share a group
  if and only if they agree in both; 9.99 and 9.994 both print as \<open>9.99\<close> and 10.00 does
  not. A group with fewer than two dates gives no subscription, and every subscription of
  the result comes from a group with at least two dates.
\<close>

theorem grouping_by_merchant_and_cents:
  "paymentGroups L c lo hi txs (merchant, amount) =
      (if key_dates L c lo hi (merchant, amount) txs = [] then None
       else Some (key_dates L c lo hi (merchant, amount) txs))
   \<and> (group_key tx1 = group_key tx2 \<longleftrightarrow>
        merchant_of tx1 = merchant_of tx2
        \<and> fmt2 (num_field tx1 ''amount'') = fmt2 (num_field tx2 ''amount''))
   \<and> fmt2 (fl (999 / 100)) = fmt2 (fl (9994 / 1000))
   \<and> fmt2 (fl (999 / 100)) \<noteq> fmt2 (fl (1000 / 100))
   \<and> (length ds < 2 \<longrightarrow> group_subscription L k ds = None)
   \<and> (\<forall>s \<in> set (analyzeForSubscriptions L txs c lo hi order).
        2 \<le> sub_occurrences s
        \<and> (\<exists>k \<in> set order. 2 \<le> length (key_dates L c lo hi k txs)
              \<and> group_subscription L k (key_dates L c lo hi k txs) = Some s))"
proof -
  have a: "paymentGroups L c lo hi txs (merchant, amount) =
      (if key_dates L c lo hi (merchant, amount) txs = [] then None
       else Some (key_dates L c lo hi (merchant, amount) txs))"
    by (rule paymentGroups_key_dates)
  have b: "group_key tx1 = group_key tx2 \<longleftrightarrow>
        merchant_of tx1 = merchant_of tx2
        \<and> fmt2 (num_field tx1 ''amount'') = fmt2 (num_field tx2 ''amount'')"
    by (simp add: group_key_def)
  have e: "length ds < 2 \<longrightarrow> group_subscription L k ds = None"
    by (simp add: group_subscription_def)
  have f: "2 \<le> sub_occurrences s
        \<and> (\<exists>k \<in> set order. 2 \<le> length (key_dates L c lo hi k txs)
              \<and> group_subscription L k (key_dates L c lo hi k txs) = Some s)"
    if "s \<in> set (analyzeForSubscriptions L txs c lo hi order)" for s
  proof -
    from analyzeForSubscriptions_mem [OF that] obtain k0 ds0 where
      k0: "k0 \<in> set order" and g: "paymentGroups L c lo hi txs k0 = Some ds0"
      and s: "group_subscription L k0 ds0 = Some s" by blast
    from g have ds0: "ds0 = key_dates L c lo hi k0 txs"
      by (simp add: paymentGroups_key_dates split: if_splits)
    from group_subscription_Some [OF s] have "2 \<le> length ds0"
      "sub_occurrences s = int (length ds0)" by simp_all
    with k0 s ds0 show ?thesis by auto
  qed
  from a b e f fmt2_examples show ?thesis by simp
qed

theorem grouping_by_merchant_and_cents_witness:
  "paymentGroups utc example_cutoff 1 example_max example_txs (''Starbucks Coffee'', ''8.50'')
     = Some (key_dates utc example_cutoff 1 example_max (''Starbucks Coffee'', ''8.50'')
          example_txs)
   \<and> length [\<lparr>t_nanos = 1706832000000000000, t_offset = 0\<rparr>] < 2
   \<and> group_subscription utc (''Starbucks Coffee'', ''8.50'')
        [\<lparr>t_nanos = 1706832000000000000, t_offset = 0\<rparr>] = None
   \<and> netflix_subscription
        \<in> set (analyzeForSubscriptions utc example_txs example_cutoff 1 example_max
             example_order)
   \<and> 2 \<le> sub_occurrences netflix_subscription"
proof -
  note t = grouping_by_merchant_and_cents [of utc example_cutoff 1 example_max example_txs
      "''Starbucks Coffee''" "''8.50''" _ _ "[\<lparr>t_nanos = 1706832000000000000, t_offset = 0\<rparr>]"
      "(''Starbucks Coffee'', ''8.50'')" example_order]
  have m: "netflix_subscription
      \<in> set (analyzeForSubscriptions utc example_txs example_cutoff 1 example_max example_order)"
    by (simp add: example_result)
  have g: "paymentGroups utc example_cutoff 1 example_max example_txs
      (''Starbucks Coffee'', ''8.50'')
     = Some (key_dates utc example_cutoff 1 example_max (''Starbucks Coffee'', ''8.50'')
          example_txs)"
    using t example_coffee_group by (auto split: if_splits)
  have n: "group_subscription utc (''Starbucks Coffee'', ''8.50'')
        [\<lparr>t_nanos = 1706832000000000000, t_offset = 0\<rparr>] = None"
    using t by simp
  have o: "2 \<le> sub_occurrences netflix_subscription"
    using t m by blast
  from g n m o show ?thesis by simp
qed

lemma tie_example: "isRegularPattern [25, 26, 34] = False"
  by (simp add: isRegularPattern_def float_eval cong: let_weak_cong)

text \<open>
  Claim C1, as amended. For a group with at least one interval the regularity test
  accepts if and only if the share of the intervals \<open>i\<close> with \<open>|i - avg| \<le> 0.2 * avg\<close> is
  at least 0.7, where the mean \<open>avg\<close>, the difference, the product \<open>0.2 * avg\<close> and the
  share are computed in float64 and 0.7 is the double nearest to it. Where an interval
  lies exactly 20% from the exact mean the rounding decides: the intervals 25, 26, 34 are
  rejected. The intervals 10, 60, 5 fail the test. A group that fails the test gives no
  subscription, and every subscription of the result comes from a group that passes it.
\<close>

theorem regularity_test:
  assumes "intervals \<noteq> []"
  shows "(isRegularPattern intervals \<longleftrightarrow> fl (7 / 10) \<le> share_within intervals)
    \<and> \<not> isRegularPattern [25, 26, 34]
    \<and> \<not> isRegularPattern [10, 60, 5]
    \<and> (\<not> isRegularPattern (intervals_of (sort_times [] ds))
         \<longrightarrow> group_subscription L k ds = None)
    \<and> (\<forall>s \<in> set (analyzeForSubscriptions L txs c lo hi order).
         \<exists>k \<in> set order. \<exists>ds. paymentGroups L c lo hi txs k = Some ds
           \<and> isRegularPattern (intervals_of (sort_times [] ds))
           \<and> group_subscription L k ds = Some s)"
proof -
  have a: "isRegularPattern intervals \<longleftrightarrow> fl (7 / 10) \<le> share_within intervals"
    using assms by (rule isRegularPattern_share)
  have b: "\<not> isRegularPattern [10, 60, 5]" "\<not> isRegularPattern [25, 26, 34]"
    by (simp_all add: irregular_example tie_example)
  have c: "\<not> isRegularPattern (intervals_of (sort_times [] ds))
         \<longrightarrow> group_subscription L k ds = None"
    by (simp add: group_subscription_def Let_def)
  have d: "\<exists>k \<in> set order. \<exists>ds. paymentGroups L c lo hi txs k = Some ds
           \<and> isRegularPattern (intervals_of (sort_times [] ds))
           \<and> group_subscription L k ds = Some s"
    if "s \<in> set (analyzeForSubscriptions L txs c lo hi order)" for s
  proof -
    from analyzeForSubscriptions_mem [OF that] obtain k0 ds0 where
      k0: "k0 \<in> set order" and g: "paymentGroups L c lo hi txs k0 = Some ds0"
      and s: "group_subscription L k0 ds0 = Some s" by blast
    from group_subscription_Some(2) [OF s] k0 g s show ?thesis by blast
  qed
  from a b c d show ?thesis by blast
qed

theorem regularity_test_witness:
  "[10, 60, 5] \<noteq> ([] :: int list)
   \<and> (isRegularPattern [10, 60, 5] \<longleftrightarrow> fl (7 / 10) \<le> share_within [10, 60, 5])
   \<and> share_within [10, 60, 5] = 0
   \<and> map_option (\<lambda>ds. intervals_of (sort_times [] ds))
        (paymentGroups utc example_cutoff 1 example_max example_txs
           (''Planet Fitness'', ''25.00'')) = Some [10, 60, 5]
   \<and> analyzeForSubscriptions utc example_txs example_cutoff 1 example_max example_order
        = [netflix_subscription]
   \<and> sub_merchant netflix_subscription \<noteq> ''Planet Fitness''
   \<and> (\<exists>k \<in> set example_order. \<exists>ds.
         paymentGroups utc example_cutoff 1 example_max example_txs k = Some ds
         \<and> isRegularPattern (intervals_of (sort_times [] ds))
         \<and> group_subscription utc k ds = Some netflix_subscription)"
proof -
  have n: "[10, 60, 5] \<noteq> ([] :: int list)" by simp
  note t = regularity_test [OF n, of _ utc _ example_txs example_cutoff 1 example_max
      example_order]
  have sh: "share_within [10, 60, 5] = 0"
    by (simp add: share_within_def mean_interval_def within_tolerance_def float_eval
        cong: let_weak_cong)
  have m: "netflix_subscription
      \<in> set (analyzeForSubscriptions utc example_txs example_cutoff 1 example_max example_order)"
    by (simp add: example_result)
  have pf: "sub_merchant netflix_subscription \<noteq> ''Planet Fitness''"
    by (simp add: netflix_subscription_def)
  have ex: "\<exists>k \<in> set example_order. \<exists>ds.
         paymentGroups utc example_cutoff 1 example_max example_txs k = Some ds
         \<and> isRegularPattern (intervals_of (sort_times [] ds))
         \<and> group_subscription utc k ds = Some netflix_subscription"
    using t m by blast
  from n t sh example_gym_intervals example_result pf ex show ?thesis by blast
qed

text \<open>
  The claim as stated, with the arithmetic mean and the exact inequality, fails: of the
  intervals 10, 11, 14 the mean is 35/3 and its fifth is 7/3; the three distances from
  the mean are 5/3, 2/3 and 7/3, so all three intervals are within tolerance and the
  pattern is regular. The code computes the mean 11.666666666666666, the tolerance
  2.3333333333333335 and the distance 2.333333333333334 of 14 from the mean, counts two
  intervals of three and rejects the group.
\<close>

theorem regularity_exact_tie:
  "exact_regular [10, 11, 14] \<and> \<not> isRegularPattern [10, 11, 14]"
proof -
  have e: "exact_regular [10, 11, 14]"
    by (simp add: exact_regular_def exact_mean_def exact_within_def)
  have c: "\<not> isRegularPattern [10, 11, 14]"
    by (simp add: isRegularPattern_def float_eval cong: let_weak_cong)
  from e c show ?thesis by blast
qed

text \<open>
  Claim C4. The confidence is high if and only if there are at least four occurrences and
  the intervals pass the regularity test, medium if and only if that fails and there are
  at least three occurrences, and low otherwise. Every subscription of the result has
  passed the regularity test and has at least two occurrences, so its confidence is high
  exactly for four or more occurrences, medium exactly for three and low exactly for two.
\<close>

theorem confidence_levels:
  "(calculateConfidence occurrences intervals = ''high''
      \<longleftrightarrow> 4 \<le> occurrences \<and> isRegularPattern intervals)
   \<and> (calculateConfidence occurrences intervals = ''medium''
      \<longleftrightarrow> \<not> (4 \<le> occurrences \<and> isRegularPattern intervals) \<and> 3 \<le> occurrences)
   \<and> (calculateConfidence occurrences intervals = ''low''
      \<longleftrightarrow> \<not> (4 \<le> occurrences \<and> isRegularPattern intervals) \<and> \<not> 3 \<le> occurrences)
   \<and> (\<forall>s \<in> set (analyzeForSubscriptions L txs c lo hi order).
        (sub_confidence s = ''high'' \<longleftrightarrow> 4 \<le> sub_occurrences s)
        \<and> (sub_confidence s = ''medium'' \<longleftrightarrow> sub_occurrences s = 3)
        \<and> (sub_confidence s = ''low'' \<longleftrightarrow> sub_occurrences s = 2))"
proof -
  have a: "(calculateConfidence occurrences intervals = ''high''
      \<longleftrightarrow> 4 \<le> occurrences \<and> isRegularPattern intervals)
   \<and> (calculateConfidence occurrences intervals = ''medium''
      \<longleftrightarrow> \<not> (4 \<le> occurrences \<and> isRegularPattern intervals) \<and> 3 \<le> occurrences)
   \<and> (calculateConfidence occurrences intervals = ''low''
      \<longleftrightarrow> \<not> (4 \<le> occurrences \<and> isRegularPattern intervals) \<and> \<not> 3 \<le> occurrences)"
    by (simp add: calculateConfidence_def)
  have b: "(sub_confidence s = ''high'' \<longleftrightarrow> 4 \<le> sub_occurrences s)
        \<and> (sub_confidence s = ''medium'' \<longleftrightarrow> sub_occurrences s = 3)
        \<and> (sub_confidence s = ''low'' \<longleftrightarrow> sub_occurrences s = 2)"
    if "s \<in> set (analyzeForSubscriptions L txs c lo hi order)" for s
  proof -
    from analyzeForSubscriptions_mem [OF that] obtain k0 ds0 where
      s: "group_subscription L k0 ds0 = Some s" by blast
    note f = group_subscription_Some [OF s]
    from f(1) have "2 \<le> int (length ds0)" by simp
    with f(2,3,4) show ?thesis
      by (auto simp: calculateConfidence_def)
  qed
  from a b show ?thesis by blast
qed

theorem confidence_levels_witness:
  "netflix_subscription
     \<in> set (analyzeForSubscriptions utc example_txs example_cutoff 1 example_max example_order)
   \<and> sub_occurrences netflix_subscription = 4
   \<and> sub_confidence netflix_subscription = ''high''
   \<and> (sub_confidence netflix_subscription = ''high''
        \<longleftrightarrow> 4 \<le> sub_occurrences netflix_subscription)
   \<and> calculateConfidence 3 [30, 30] = ''medium''
   \<and> calculateConfidence 2 [30] = ''low''"
proof -
  note t = confidence_levels [of _ _ utc example_txs example_cutoff 1 example_max example_order]
  have m: "netflix_subscription
      \<in> set (analyzeForSubscriptions utc example_txs example_cutoff 1 example_max example_order)"
    by (simp add: example_result)
  have h: "sub_confidence netflix_subscription = ''high''
        \<longleftrightarrow> 4 \<le> sub_occurrences netflix_subscription"
    using t m by blast
  have c3: "calculateConfidence 3 [30, 30] = ''medium''"
    using confidence_levels [of 3 "[30, 30]"] by simp
  have c2: "calculateConfidence 2 [30] = ''low''"
    using confidence_levels [of 2 "[30]"] by simp
  from m h c3 c2 show ?thesis by (simp add: netflix_subscription_def)
qed

subsection \<open>Monthly cost\<close>






subsection \<open>Properties of the rounding function\<close>

lemma pow2_powi: "pow2 e = 2 powi e"
  by (simp add: pow2_def power_int_def inverse_eq_divide power_one_over)

lemma pow2_pos [simp]: "0 < pow2 e"
  by (simp add: pow2_powi)

lemma pow2_add: "pow2 (a + b) = pow2 a * pow2 b"
  by (simp add: pow2_powi power_int_add)

lemma pow2_mono: "a \<le> b \<Longrightarrow> pow2 a \<le> pow2 b"
  by (simp add: pow2_powi power_int_increasing)

lemma pow2_Suc: "pow2 (e + 1) = 2 * pow2 e"
  by (simp add: pow2_powi power_int_add)

lemma pow2_pred: "pow2 (e - 1) = pow2 e / 2"
  using pow2_Suc [of "e - 1"] by simp

lemma pow2_nat: "0 \<le> e \<Longrightarrow> pow2 e = of_int (2 ^ nat e)"
  by (simp add: pow2_def)

lemma expo_up_spec:
  "1 \<le> x \<Longrightarrow> pow2 (expo_up x e - e) \<le> x \<and> x < pow2 (expo_up x e - e + 1)"
proof (induction x e rule: expo_up.induct)
  case (1 x e)
  show ?case
  proof (cases "x < 2")
    case True
    with "1.prems" show ?thesis by (simp add: pow2_def expo_up.simps [of x e])
  next
    case False
    define r where "r = expo_up (x / 2) (e + 1) - (e + 1)"
    from False have "1 \<le> x / 2" by simp
    with "1.IH" [OF False] have ih: "pow2 r \<le> x / 2" "x / 2 < pow2 (r + 1)"
      by (simp_all add: r_def)
    have eq: "expo_up x e = expo_up (x / 2) (e + 1)"
      using False by (simp add: expo_up.simps [of x e])
    have a: "expo_up x e - e = r + 1" using eq by (simp add: r_def)
    have "pow2 (r + 1) \<le> x" unfolding pow2_Suc [of r] using ih(1) by simp
    moreover have "x < pow2 (r + 1 + 1)"
      unfolding pow2_Suc [of "r + 1"] using ih(2) by simp
    ultimately show ?thesis unfolding a by blast
  qed
qed

lemma expo_down_spec:
  "0 < x \<Longrightarrow> x < 1 \<Longrightarrow> pow2 (expo_down x e - e) \<le> x \<and> x < pow2 (expo_down x e - e + 1)"
proof (induction x e rule: expo_down.induct)
  case (1 x e)
  have step: "expo_down x e = expo_down (x * 2) (e - 1)"
    using "1.prems" by (simp add: expo_down.simps [of x e])
  show ?case
  proof (cases "x * 2 < 1")
    case True
    define r where "r = expo_down (x * 2) (e - 1) - (e - 1)"
    have c: "\<not> (x \<le> 0 \<or> 1 \<le> x)" using "1.prems" by simp
    from "1.IH" [OF c] "1.prems" True
    have ih: "pow2 r \<le> x * 2" "x * 2 < pow2 (r + 1)" by (simp_all add: r_def)
    have a: "expo_down x e - e = r - 1" using step by (simp add: r_def)
    have "pow2 (r - 1) \<le> x" unfolding pow2_pred [of r] using ih(1) by simp
    moreover have "x < pow2 (r - 1 + 1)" using ih(2) by (simp add: pow2_Suc [of r])
    ultimately show ?thesis unfolding a by blast
  next
    case False
    then have "expo_down (x * 2) (e - 1) = e - 1"
      by (simp add: expo_down.simps [of "x * 2" "e - 1"])
    with step have "expo_down x e = e - 1" by simp
    with False "1.prems" show ?thesis by (simp add: pow2_def)
  qed
qed

lemma expo_spec:
  assumes "0 < x"
  shows "pow2 (expo x) \<le> x" "x < pow2 (expo x + 1)"
proof -
  have "pow2 (expo x) \<le> x \<and> x < pow2 (expo x + 1)"
  proof (cases "1 \<le> x")
    case True
    with expo_up_spec [of x 0] show ?thesis by (simp add: expo_def)
  next
    case False
    with assms expo_down_spec [of x 0] show ?thesis by (simp add: expo_def)
  qed
  then show "pow2 (expo x) \<le> x" "x < pow2 (expo x + 1)" by simp_all
qed

lemma expo_unique:
  assumes "pow2 e \<le> x" "x < pow2 (e + 1)"
  shows "expo x = e"
proof -
  have x: "0 < x" using assms(1) by (rule less_le_trans [OF pow2_pos])
  note s = expo_spec [OF x]
  have "\<not> expo x < e"
  proof
    assume "expo x < e"
    then have "pow2 (expo x + 1) \<le> pow2 e" by (intro pow2_mono) simp
    with s(2) assms(1) show False by simp
  qed
  moreover have "\<not> e < expo x"
  proof
    assume "e < expo x"
    then have "pow2 (e + 1) \<le> pow2 (expo x)" by (intro pow2_mono) simp
    with s(1) assms(2) show False by simp
  qed
  ultimately show ?thesis by simp
qed

lemma expo_mono:
  assumes "0 < x" "x \<le> y"
  shows "expo x \<le> expo y"
proof (rule ccontr)
  assume "\<not> expo x \<le> expo y"
  then have "expo y + 1 \<le> expo x" by simp
  then have "pow2 (expo y + 1) \<le> pow2 (expo x)" by (rule pow2_mono)
  moreover have "0 < y" using assms by simp
  ultimately show False
    using expo_spec(2) [of y] expo_spec(1) [of x] assms by simp
qed

lemma pow2_less_cancel: "pow2 a < pow2 b \<Longrightarrow> a < b"
  using pow2_mono [of b a] by (cases "a < b") simp_all

lemma pow2_nonneg [simp]: "0 \<le> pow2 e"
  using pow2_pos [of e] by (rule less_imp_le)

lemma pow2_neq0 [simp]: "pow2 e \<noteq> 0"
  by (simp add: pow2_powi)

lemma pow2_diff: "pow2 (a - b) = pow2 a / pow2 b"
  by (simp add: pow2_powi power_int_diff)

lemma rne_cases: "rne x = \<lfloor>x\<rfloor> \<or> rne x = \<lfloor>x\<rfloor> + 1"
  by (simp add: rne_def Let_def)

lemma rne_floor:
  "rne x = \<lfloor>x\<rfloor> \<and> x - of_int \<lfloor>x\<rfloor> \<le> 1 / 2
   \<or> rne x = \<lfloor>x\<rfloor> + 1 \<and> 1 / 2 \<le> x - of_int \<lfloor>x\<rfloor>"
proof -
  define d where "d = x - of_int \<lfloor>x\<rfloor>"
  have r: "rne x = (if d < 1 / 2 then \<lfloor>x\<rfloor> else if 1 / 2 < d then \<lfloor>x\<rfloor> + 1
      else if even \<lfloor>x\<rfloor> then \<lfloor>x\<rfloor> else \<lfloor>x\<rfloor> + 1)"
    by (simp only: rne_def Let_def d_def)
  consider "d < 1 / 2" | "1 / 2 < d" | "d = 1 / 2" by linarith
  then have "rne x = \<lfloor>x\<rfloor> \<and> d \<le> 1 / 2 \<or> rne x = \<lfloor>x\<rfloor> + 1 \<and> 1 / 2 \<le> d"
    by cases (simp_all add: r)
  then show ?thesis by (simp only: d_def)
qed

lemma rne_upper: "of_int (rne x) \<le> x + 1 / 2"
proof -
  have "of_int \<lfloor>x\<rfloor> \<le> x" by simp
  with rne_floor [of x] show ?thesis
    by (elim disjE conjE) (simp only: of_int_add of_int_1, linarith)+
qed

lemma rne_lower: "x - 1 / 2 \<le> of_int (rne x)"
proof -
  have "x < of_int \<lfloor>x\<rfloor> + 1" by linarith
  with rne_floor [of x] show ?thesis
    by (elim disjE conjE) (simp only: of_int_add of_int_1, linarith)+
qed

lemma rne_of_int [simp]: "rne (of_int n) = n"
  by (simp add: rne_def)

lemma rne_mono:
  assumes "x \<le> y"
  shows "rne x \<le> rne y"
proof (cases "\<lfloor>x\<rfloor> < \<lfloor>y\<rfloor>")
  case True
  have "rne x \<le> \<lfloor>x\<rfloor> + 1" using rne_cases [of x] by auto
  also have "\<dots> \<le> \<lfloor>y\<rfloor>" using True by simp
  also have "\<dots> \<le> rne y" using rne_cases [of y] by auto
  finally show ?thesis .
next
  case False
  moreover have "\<lfloor>x\<rfloor> \<le> \<lfloor>y\<rfloor>" using assms by (rule floor_mono)
  ultimately have f: "\<lfloor>x\<rfloor> = \<lfloor>y\<rfloor>" by simp
  have d: "x - of_int \<lfloor>y\<rfloor> \<le> y - of_int \<lfloor>y\<rfloor>" using assms by simp
  show ?thesis
  proof (cases "x = y")
    case True
    then show ?thesis by simp
  next
    case False
    with assms have "x < y" by simp
    then have lt: "x - of_int \<lfloor>y\<rfloor> < y - of_int \<lfloor>y\<rfloor>" by simp
    from rne_floor [of x] rne_floor [of y] show ?thesis
      unfolding f using lt by (elim disjE conjE) simp_all
  qed
qed

lemma fl_pos_grid:
  "fl_pos x = of_int (rne (x / pow2 (max (expo x) (- 1022) - 52)))
                * pow2 (max (expo x) (- 1022) - 52)"
  by (simp add: fl_pos_def Let_def)

lemma fl_neg: "fl (- x) = - fl x"
  by (simp add: fl_def)

lemma fl_pos_nonneg: "0 \<le> x \<Longrightarrow> 0 \<le> fl_pos x"
proof -
  assume x: "0 \<le> x"
  have "rne 0 \<le> rne (x / pow2 (max (expo x) (- 1022) - 52))"
    by (rule rne_mono) (simp add: x)
  then have "0 \<le> rne (x / pow2 (max (expo x) (- 1022) - 52))"
    using rne_of_int [of 0] by simp
  then show ?thesis by (simp add: fl_pos_grid)
qed

lemma fl_nonneg: "0 \<le> x \<Longrightarrow> 0 \<le> fl x"
  by (simp add: fl_def fl_pos_nonneg)

lemma fl_nonpos: "x \<le> 0 \<Longrightarrow> fl x \<le> 0"
  using fl_nonneg [of "- x"] by (simp add: fl_neg)

lemma fl_pos_mono:
  assumes x: "0 < x" and xy: "x \<le> y"
  shows "fl_pos x \<le> fl_pos y"
proof -
  define ex where "ex = max (expo x) (- 1022)"
  define ey where "ey = max (expo y) (- 1022)"
  have y: "0 < y" using x xy by simp
  have le: "ex \<le> ey"
    using expo_mono [OF x xy] by (simp add: ex_def ey_def)
  have fx: "fl_pos x = of_int (rne (x / pow2 (ex - 52))) * pow2 (ex - 52)"
    by (simp add: fl_pos_grid ex_def)
  have fy: "fl_pos y = of_int (rne (y / pow2 (ey - 52))) * pow2 (ey - 52)"
    by (simp add: fl_pos_grid ey_def)
  show ?thesis
  proof (cases "ex = ey")
    case True
    have "x / pow2 (ey - 52) \<le> y / pow2 (ey - 52)"
      using xy by (simp add: divide_right_mono)
    then have "rne (x / pow2 (ey - 52)) \<le> rne (y / pow2 (ey - 52))" by (rule rne_mono)
    then show ?thesis
      unfolding fx fy True by (simp add: mult_right_mono)
  next
    case False
    with le have lt: "ex < ey" by simp
    then have ey_expo: "ey = expo y" by (auto simp: ey_def ex_def max_def split: if_splits)
    have "x < pow2 (expo x + 1)" using expo_spec(2) [OF x] .
    also have "\<dots> \<le> pow2 (ex + 1)" by (rule pow2_mono) (simp add: ex_def)
    finally have xlt: "x < pow2 (ex + 1)" .
    have "x / pow2 (ex - 52) \<le> pow2 (ex + 1) / pow2 (ex - 52)"
      using xlt by (simp add: divide_right_mono)
    also have "\<dots> = pow2 ((ex + 1) - (ex - 52))" by (simp only: pow2_diff)
    also have "\<dots> = of_int (2 ^ 53)" by (simp add: pow2_def)
    finally have "rne (x / pow2 (ex - 52)) \<le> rne (of_int (2 ^ 53))" by (rule rne_mono)
    then have "of_int (rne (x / pow2 (ex - 52))) \<le> (of_int (2 ^ 53) :: rat)"
      unfolding rne_of_int by (simp only: of_int_le_iff)
    then have "fl_pos x \<le> of_int (2 ^ 53) * pow2 (ex - 52)"
      unfolding fx by (simp add: mult_right_mono)
    also have "of_int (2 ^ 53) * pow2 (ex - 52) = pow2 53 * pow2 (ex - 52)"
      by (simp add: pow2_def)
    also have "\<dots> = pow2 (ex + 1)"
      using pow2_add [of 53 "ex - 52"] by (simp add: algebra_simps)
    also have "\<dots> \<le> pow2 ey" using lt by (intro pow2_mono) simp
    finally have up: "fl_pos x \<le> pow2 ey" .
    have "pow2 ey \<le> y" using expo_spec(1) [OF y] by (simp add: ey_expo)
    then have "pow2 ey / pow2 (ey - 52) \<le> y / pow2 (ey - 52)"
      by (simp add: divide_right_mono)
    moreover have "pow2 ey / pow2 (ey - 52) = pow2 (ey - (ey - 52))" by (simp only: pow2_diff)
    moreover have "pow2 (ey - (ey - 52)) = of_int (2 ^ 52)" by (simp add: pow2_def)
    ultimately have "of_int (2 ^ 52) \<le> y / pow2 (ey - 52)" by simp
    then have "rne (of_int (2 ^ 52)) \<le> rne (y / pow2 (ey - 52))" by (rule rne_mono)
    then have "(of_int (2 ^ 52) :: rat) \<le> of_int (rne (y / pow2 (ey - 52)))"
      unfolding rne_of_int by (simp only: of_int_le_iff)
    then have "of_int (2 ^ 52) * pow2 (ey - 52) \<le> fl_pos y"
      unfolding fy by (simp add: mult_right_mono)
    moreover have "of_int (2 ^ 52) * pow2 (ey - 52) = pow2 52 * pow2 (ey - 52)"
      by (simp add: pow2_def)
    moreover have "pow2 52 * pow2 (ey - 52) = pow2 ey"
      using pow2_add [of 52 "ey - 52"] by (simp add: algebra_simps)
    ultimately have "pow2 ey \<le> fl_pos y" by simp
    with up show ?thesis by simp
  qed
qed

text \<open>Rounding is monotone.\<close>

lemma fl_mono:
  assumes "x \<le> y"
  shows "fl x \<le> fl y"
proof -
  consider "0 < x" | "x \<le> 0" "0 \<le> y" | "y < 0" by linarith
  then show ?thesis
  proof cases
    case 1
    with assms have "0 < y" by simp
    with 1 assms show ?thesis by (simp add: fl_def fl_pos_mono)
  next
    case 2
    then show ?thesis using fl_nonpos [of x] fl_nonneg [of y] by simp
  next
    case 3
    with assms have "x < 0" by simp
    have "fl_pos (- y) \<le> fl_pos (- x)"
      using 3 assms by (intro fl_pos_mono) simp_all
    with 3 \<open>x < 0\<close> show ?thesis by (simp add: fl_def)
  qed
qed

lemma expo_one: "expo 1 = 0"
  by (rule expo_unique) (simp_all add: pow2_def)

lemma fl_int_exact:
  assumes "0 \<le> n" "n < 2 ^ 53"
  shows "fl (of_int n) = of_int n"
proof (cases "n = 0")
  case True
  then show ?thesis by (simp add: fl_def)
next
  case False
  with assms have n: "1 \<le> n" by simp
  define x :: rat where "x = of_int n"
  have x1: "1 \<le> x" using n by (simp add: x_def)
  then have x0: "0 < x" by simp
  have e0: "0 \<le> expo x" using expo_mono [of 1 x] x1 by (simp add: expo_one)
  have "of_int n < (of_int (2 ^ 53) :: rat)" using assms(2) by (simp only: of_int_less_iff)
  then have "x < pow2 53" by (simp add: x_def pow2_def)
  with expo_spec(1) [OF x0] have "pow2 (expo x) < pow2 53" by simp
  then have e53: "expo x < 53" by (rule pow2_less_cancel)
  define j where "j = 52 - expo x"
  have j0: "0 \<le> j" using e53 by (simp add: j_def)
  have m: "max (expo x) (- 1022) - 52 = - j" using e0 by (simp add: j_def)
  have u: "pow2 (- j) = 1 / pow2 j" using pow2_diff [of 0 j] by (simp add: pow2_def)
  have pj: "pow2 j = of_int (2 ^ nat j)" using j0 by (rule pow2_nat)
  have "x / pow2 (- j) = of_int (n * 2 ^ nat j)"
    by (simp add: u pj x_def)
  then have "fl_pos x = of_int (n * 2 ^ nat j) * pow2 (- j)"
    by (simp only: fl_pos_grid m rne_of_int)
  also have "\<dots> = x" by (simp add: u pj x_def)
  finally have "fl_pos x = x" .
  with x0 show ?thesis by (simp add: fl_def x_def)
qed

lemma fl_upper_bound:
  assumes "0 \<le> x" "x \<le> B"
  shows "fl x \<le> x + (B + 1) / 2 ^ 53"
proof (cases "x = 0")
  case True
  with assms show ?thesis by (simp add: fl_def)
next
  case False
  with assms have x0: "0 < x" by simp
  define e where "e = max (expo x) (- 1022)"
  define u where "u = pow2 (e - 52)"
  have "of_int (rne (x / u)) \<le> x / u + 1 / 2" by (rule rne_upper)
  then have "of_int (rne (x / u)) * u \<le> (x / u + 1 / 2) * u"
    by (rule mult_right_mono) (simp add: u_def)
  also have "\<dots> = x + u / 2" by (simp add: u_def field_simps)
  finally have a: "fl x \<le> x + u / 2"
    using x0 by (simp add: fl_def fl_pos_grid e_def u_def)
  have u2: "u / 2 = pow2 e / 2 ^ 53"
    using pow2_diff [of e 52] by (simp add: u_def pow2_def)
  have "pow2 e \<le> x + 1"
  proof (cases "expo x \<le> - 1022")
    case True
    then have "e = - 1022" by (simp add: e_def)
    then have "pow2 e \<le> 1" by (simp add: pow2_def)
    with x0 show ?thesis by simp
  next
    case False
    then have "e = expo x" by (simp add: e_def)
    with expo_spec(1) [OF x0] show ?thesis by simp
  qed
  with assms(2) have "pow2 e \<le> B + 1" by simp
  then have "pow2 e / 2 ^ 53 \<le> (B + 1) / 2 ^ 53" by (simp add: divide_right_mono)
  moreover from a u2 have "fl x \<le> x + pow2 e / 2 ^ 53" by (simp only:)
  ultimately show ?thesis by linarith
qed

lemma go_quot_nonneg: "0 \<le> a \<Longrightarrow> 0 < b \<Longrightarrow> go_quot a b = a div b"
  by (cases "a = 0") (simp_all add: go_quot_def)

lemma go_rem_nonneg: "0 \<le> a \<Longrightarrow> 0 < b \<Longrightarrow> go_rem a b = a mod b"
  by (simp add: go_rem_def go_quot_nonneg minus_mult_div_eq_mod)

text \<open>
  The day count of a gap of whole seconds: the float64 operations of \<open>Hours\<close> and of
  the division by 24 do not reach the next whole day.
\<close>

lemma days_of_gap:
  assumes g0: "0 \<le> g" and gs: "g mod 10 ^ 9 = 0" and g63: "g < 2 ^ 63"
    and lo: "m * day_ns \<le> g" and hi: "g < (m + 1) * day_ns"
  shows "go_int (fdiv (hours g) 24) = m"
proof -
  define q where "q = g div 3600000000000"
  define r where "r = g mod 3600000000000"
  have D: "day_ns = 86400000000000" by (simp add: day_ns_def hour_ns_def)
  have H: "hour_ns = 3600000000000" by (simp add: hour_ns_def)
  have g: "g = 3600000000000 * q + r" by (simp add: q_def r_def)
  have r0: "0 \<le> r" and rH: "r < 3600000000000" by (simp_all add: r_def)
  have lo': "86400000000000 * m \<le> g" using lo by (simp add: D algebra_simps)
  have hi': "g < 86400000000000 * m + 86400000000000" using hi by (simp add: D algebra_simps)
  have m0: "0 \<le> m" using g0 hi' by linarith
  have m1: "m \<le> 106751" using lo' g63 by simp
  have q_lo: "24 * m \<le> q" using g r0 rH lo' by linarith
  have q_hi: "q \<le> 24 * m + 23" using g r0 rH hi' by linarith
  have q0: "0 \<le> q" using q_lo m0 by linarith
  from gs obtain g' where g': "g = 10 ^ 9 * g'" by (auto simp: mod_eq_0_iff_dvd)
  have r': "r = 1000000000 * (g' - 3600 * q)" using g g' by simp
  define t where "t = g' - 3600 * q"
  have "1000000000 * t < 1000000000 * 3600" using r' rH by (simp add: t_def)
  then have "t < 3600" by (simp only: mult_less_cancel_left_pos zero_less_numeral)
  then have "t \<le> 3599" by simp
  then have "1000000000 * t \<le> 1000000000 * 3599" by (simp only: mult_le_cancel_left_pos zero_less_numeral)
  then have r_hi: "r \<le> 3599000000000" using r' by (simp add: t_def)
  define y :: rat where "y = of_int r / 3600000000000"
  define f where "f = fl y"
  define s where "s = of_int q + f"
  define h where "h = fl s"
  define z where "z = h / 24"
  define x where "x = fl z"
  have f64q: "float64 q = of_int q"
    unfolding float64_def using q0 q_hi m1 by (intro fl_int_exact) simp_all
  have f64r: "float64 r = of_int r"
    unfolding float64_def using r0 rH by (intro fl_int_exact) simp_all
  have cH: "fl 3600000000000 = 3600000000000"
    using fl_int_exact [of 3600000000000] by simp
  have hours: "hours g = h"
    by (simp add: hours_def H go_quot_nonneg go_rem_nonneg g0 q_def [symmetric] r_def [symmetric]
        f64q f64r cH fadd_def fdiv_def h_def s_def f_def y_def)
  have x: "fdiv (hours g) 24 = x" by (simp add: hours fdiv_def x_def z_def)
  have y0: "0 \<le> y" using r0 by (simp add: y_def)
  have "(of_int r :: rat) \<le> of_int 3599000000000" using r_hi by (simp only: of_int_le_iff)
  then have y_hi: "y \<le> 3599 / 3600" by (simp add: y_def)
  have f0: "0 \<le> f" unfolding f_def using y0 by (rule fl_nonneg)
  have "f \<le> y + (1 + 1) / 2 ^ 53"
    unfolding f_def using y0 y_hi by (intro fl_upper_bound) simp_all
  with y_hi have f_hi: "f \<le> 3599 / 3600 + 2 / 2 ^ 53" by simp
  have qm_lo: "(of_int (24 * m) :: rat) \<le> of_int q" using q_lo by (simp only: of_int_le_iff)
  have qm_hi: "(of_int q :: rat) \<le> of_int (24 * m + 23)" using q_hi by (simp only: of_int_le_iff)
  have mr: "(of_int m :: rat) \<le> 106751"
    using m1 of_int_le_iff [of m 106751, where ?'a = rat] by simp
  have s_lo: "of_int (24 * m) \<le> s" using qm_lo f0 by (simp add: s_def)
  have s0: "0 \<le> s" using q0 f0 by (simp add: s_def)
  have s_hi: "s \<le> 24 * of_int m + 23 + 3599 / 3600 + 2 / 2 ^ 53"
    using qm_hi f_hi by (simp add: s_def)
  have s_B: "s \<le> 2562048" using s_hi mr by simp
  have "fl (of_int (24 * m)) \<le> h" unfolding h_def using s_lo by (rule fl_mono)
  moreover have "fl (of_int (24 * m)) = of_int (24 * m)"
    using m0 m1 by (intro fl_int_exact) simp_all
  ultimately have h_lo: "24 * of_int m \<le> h" by simp
  have h_hi: "h \<le> s + (2562048 + 1) / 2 ^ 53"
    unfolding h_def using s0 s_B by (rule fl_upper_bound)
  have z_lo: "of_int m \<le> z" using h_lo by (simp add: z_def)
  have z0: "0 \<le> z" using z_lo m0 by simp
  have z_hi: "z \<le> s / 24 + 2562049 / 2 ^ 53 / 24" using h_hi by (simp add: z_def)
  have z_B: "z \<le> 106753" using z_hi s_B by simp
  have "fl (of_int m) \<le> x" unfolding x_def using z_lo by (rule fl_mono)
  moreover have "fl (of_int m) = of_int m" using m0 m1 by (intro fl_int_exact) simp_all
  ultimately have x_lo: "of_int m \<le> x" by simp
  have "x \<le> z + (106753 + 1) / 2 ^ 53"
    unfolding x_def using z0 z_B by (rule fl_upper_bound)
  with z_hi s_hi have x_hi: "x < of_int m + 1" by simp
  have "0 \<le> x" using x_lo m0 by simp
  moreover have "\<lfloor>x\<rfloor> = m" using x_lo x_hi by (simp add: floor_unique)
  ultimately show ?thesis by (simp add: x go_int_def)
qed

text \<open>
  Claim C10, as amended. The interval is the float64 quotient \<open>Hours()/24\<close> of the
  gap with its fraction dropped. For two dates a whole number of seconds apart, the later
  one less than \<open>2^63\<close> nanoseconds (292 years) after the earlier one, a gap of at least
  \<open>k - 1\<close> days and less than \<open>k\<close> days counts as \<open>k - 1\<close> days; a gap of 29 days
  23 hours counts as 29.
\<close>

theorem interval_truncates_whole_seconds:
  assumes "t_nanos earlier \<le> t_nanos later"
    and "(t_nanos later - t_nanos earlier) mod 10 ^ 9 = 0"
    and "t_nanos later - t_nanos earlier < 2 ^ 63"
    and "(k - 1) * day_ns \<le> t_nanos later - t_nanos earlier"
    and "t_nanos later - t_nanos earlier < k * day_ns"
  shows "daysBetween later earlier = k - 1"
proof -
  define g where "g = t_nanos later - t_nanos earlier"
  have g0: "0 \<le> g" using assms(1) by (simp add: g_def)
  have sub: "time_sub later earlier = g"
    using g0 assms(3) by (simp add: time_sub_def g_def Let_def)
  have "go_int (fdiv (hours g) 24) = k - 1"
    using g0 assms(2-5) by (intro days_of_gap) (simp_all add: g_def)
  then show ?thesis by (simp add: daysBetween_def sub)
qed

theorem interval_truncates_whole_seconds_witness:
  "t_nanos t_zero \<le> t_nanos t_29d23h
   \<and> (t_nanos t_29d23h - t_nanos t_zero) mod 10 ^ 9 = 0
   \<and> t_nanos t_29d23h - t_nanos t_zero < 2 ^ 63
   \<and> (30 - 1) * day_ns \<le> t_nanos t_29d23h - t_nanos t_zero
   \<and> t_nanos t_29d23h - t_nanos t_zero < 30 * day_ns
   \<and> daysBetween t_29d23h t_zero = 29"
proof -
  have h: "t_nanos t_zero \<le> t_nanos t_29d23h"
    "(t_nanos t_29d23h - t_nanos t_zero) mod 10 ^ 9 = 0"
    "t_nanos t_29d23h - t_nanos t_zero < 2 ^ 63"
    "(30 - 1) * day_ns \<le> t_nanos t_29d23h - t_nanos t_zero"
    "t_nanos t_29d23h - t_nanos t_zero < 30 * day_ns"
    by (simp_all add: t_zero_def t_29d23h_def day_ns_def hour_ns_def)
  from interval_truncates_whole_seconds [OF h] have "daysBetween t_29d23h t_zero = 29"
    by simp
  with h show ?thesis by blast
qed

text \<open>
  The claim as stated, for every gap slightly less than \<open>k\<close> days, fails: for a gap of
  171 days less one nanosecond \<open>Hours\<close> adds 4103 and 0.9999999999997222, and the
  nearest double to the sum is 4104; the quotient by 24 is 171 and the interval counts as
  171 days, not 170. (RFC 3339 timestamps may carry nanoseconds.)
\<close>

theorem interval_rounds_up_one_nanosecond:
  "t_nanos t_171d_less_1ns - t_nanos t_zero < 171 * day_ns
   \<and> daysBetween t_171d_less_1ns t_zero = 171"
  by (simp add: t_171d_less_1ns_def t_zero_def float_eval time_eval cong: let_weak_cong)

end
